theory Spec2Isabelle
  imports Complex_Main "HOL-Library.Monad_Syntax"
begin

section \<open>Data model\<close>

text \<open>
  The members of \<^verbatim>\<open>constants.TokenType\<close>. The tensors built from \<^verbatim>\<open>sequence.token_types\<close> hold the
  members' integer values; distinct members of a Python enum have distinct values, so the model
  keeps the members themselves.
\<close>

datatype TokenType = TEXT | START_FORMULA | END_FORMULA | OP | VAR | NUM | END

text \<open>The Python exceptions the modelled code can raise.\<close>

datatype py_error = IndexError | KeyError | ValueError | RuntimeError

text \<open>
  \<^verbatim>\<open>data_types.Sequence\<close>: parallel per-token channels, a name and a \<^verbatim>\<open>meta\<close> dict
  (keys \<^verbatim>\<open>prompt_length\<close>, \<^verbatim>\<open>label\<close>, \<^verbatim>\<open>problem_id\<close>, \<^verbatim>\<open>problem_log_id\<close>, all with integer values).
\<close>

record Sequence =
  name :: string
  token_ids :: "int list"
  token_types :: "TokenType list"
  pos_vecs :: "int list list"
  pos_levels :: "int list"
  gpt_tokens :: "int list list"
  meta :: "string \<rightharpoonup> int"

text \<open>\<^verbatim>\<open>Sequence(name)\<close>: the constructor leaves every channel and the meta dict empty.\<close>

definition Sequence_new :: "string \<Rightarrow> Sequence" where
  "Sequence_new nm =
     \<lparr>name = nm, token_ids = [], token_types = [], pos_vecs = [], pos_levels = [],
      gpt_tokens = [], meta = Map.empty\<rparr>"

text \<open>The invariant of the data model: all per-token channels have the same length.\<close>

definition channels_aligned :: "Sequence \<Rightarrow> bool" where
  "channels_aligned s \<longleftrightarrow>
     length (token_types s) = length (token_ids s) \<and>
     length (pos_vecs s) = length (token_ids s) \<and>
     length (pos_levels s) = length (token_ids s)"

subsection \<open>Python indexing and slicing\<close>

text \<open>\<^verbatim>\<open>xs[i]\<close>: a negative index counts from the end; out of range raises IndexError.\<close>

definition py_get :: "'a list \<Rightarrow> int \<Rightarrow> py_error + 'a" where
  "py_get xs i =
     (if 0 \<le> i \<and> i < int (length xs) then Inr (xs ! nat i)
      else if i < 0 \<and> 0 \<le> int (length xs) + i then Inr (xs ! nat (int (length xs) + i))
      else Inl IndexError)"

text \<open>A slice bound, resolved against a list of length \<open>n\<close> as Python's slicing does.\<close>

definition py_bound :: "int \<Rightarrow> nat \<Rightarrow> nat" where
  "py_bound i n = (if i < 0 then nat (max (i + int n) 0) else min (nat i) n)"

text \<open>\<^verbatim>\<open>xs[a:b]\<close>, \<^verbatim>\<open>xs[:b]\<close> and \<^verbatim>\<open>xs[a:]\<close>.\<close>

definition py_slice :: "'a list \<Rightarrow> int \<Rightarrow> int \<Rightarrow> 'a list" where
  "py_slice xs a b =
     (let lo = py_bound a (length xs); hi = py_bound b (length xs)
      in take (hi - lo) (drop lo xs))"

definition py_slice_to :: "'a list \<Rightarrow> int \<Rightarrow> 'a list" where
  "py_slice_to xs b = take (py_bound b (length xs)) xs"

definition py_slice_from :: "'a list \<Rightarrow> int \<Rightarrow> 'a list" where
  "py_slice_from xs a = drop (py_bound a (length xs)) xs"

subsection \<open>Operations of the Sequence class\<close>

text \<open>
  Modelled from the spec: \<^verbatim>\<open>Sequence.__len__\<close> (data_types.py is not part of the sources at hand).
  "All per-token channel arrays have equal length = len(sequence)"; the model reads it off
  \<^verbatim>\<open>token_ids\<close>, as \<^verbatim>\<open>split_sequence\<close> itself does.
\<close>

definition len :: "Sequence \<Rightarrow> nat" where
  "len s = length (token_ids s)"

text \<open>
  Modelled from the spec: \<^verbatim>\<open>Sequence.split_at\<close> (data_types.py is not part of the sources at hand).
  "Slicing at a token boundary into two contiguous sub-sequences": every channel is cut at
  the same point, \<^verbatim>\<open>[:split_point]\<close> and \<^verbatim>\<open>[split_point:]\<close>. The spec does not say what the halves
  carry as name and meta; the model keeps the parent's.
\<close>

definition split_at :: "Sequence \<Rightarrow> int \<Rightarrow> Sequence \<times> Sequence" where
  "split_at s split_point =
     (s\<lparr>token_ids := py_slice_to (token_ids s) split_point,
        token_types := py_slice_to (token_types s) split_point,
        pos_vecs := py_slice_to (pos_vecs s) split_point,
        pos_levels := py_slice_to (pos_levels s) split_point,
        gpt_tokens := py_slice_to (gpt_tokens s) split_point\<rparr>,
      s\<lparr>token_ids := py_slice_from (token_ids s) split_point,
        token_types := py_slice_from (token_types s) split_point,
        pos_vecs := py_slice_from (pos_vecs s) split_point,
        pos_levels := py_slice_from (pos_levels s) split_point,
        gpt_tokens := py_slice_from (gpt_tokens s) split_point\<rparr>)"

text \<open>
  Modelled from the spec: \<^verbatim>\<open>Sequence.__add__\<close> (data_types.py is not part of the sources at hand).
  "Concatenation (channel-wise append, meta merged/overwritten by the right operand's rules)";
  the result keeps the left operand's name.
\<close>

definition seq_add :: "Sequence \<Rightarrow> Sequence \<Rightarrow> Sequence" where
  "seq_add a b =
     \<lparr>name = name a,
      token_ids = token_ids a @ token_ids b,
      token_types = token_types a @ token_types b,
      pos_vecs = pos_vecs a @ pos_vecs b,
      pos_levels = pos_levels a @ pos_levels b,
      gpt_tokens = gpt_tokens a @ gpt_tokens b,
      meta = meta a ++ meta b\<rparr>"

section \<open>The sequence splitter\<close>

text \<open>
  \<^verbatim>\<open>next((tok_idx for tok_idx in idxs if token_types[tok_idx] == TokenType.TEXT), None)\<close>:
  the first index of \<open>idxs\<close> that holds a text token. The generator reads the channel at every
  index it passes, so an index out of range raises before a later hit is found.
\<close>

fun next_text :: "TokenType list \<Rightarrow> int list \<Rightarrow> py_error + int option" where
  "next_text tys [] = Inr None"
| "next_text tys (i # idxs) =
     (case py_get tys i of
        Inl e \<Rightarrow> Inl e
      | Inr t \<Rightarrow> if t = TEXT then Inr (Some i) else next_text tys idxs)"

text \<open>\<^verbatim>\<open>range(a, b)\<close> and \<^verbatim>\<open>range(a, -1, -1)\<close>.\<close>

definition range_up :: "int \<Rightarrow> int \<Rightarrow> int list" where
  "range_up a b = [a..b - 1]"

definition range_down :: "int \<Rightarrow> int list" where
  "range_down a = rev [0..a]"

text \<open>
  \<^verbatim>\<open>not x\<close> for an \<^verbatim>\<open>Optional[int]\<close>: true for \<^verbatim>\<open>None\<close> and, by Python's truthiness of integers,
  also for the index 0.
\<close>

definition py_not :: "int option \<Rightarrow> bool" where
  "py_not x = (case x of None \<Rightarrow> True | Some i \<Rightarrow> i = 0)"

text \<open>\<^verbatim>\<open>[pre_split] + split_sequence(...)\<close>: an exception of the recursive call propagates.\<close>

definition prepend :: "Sequence \<Rightarrow> py_error + Sequence list \<Rightarrow> py_error + Sequence list" where
  "prepend pre r = (case r of Inl e \<Rightarrow> Inl e | Inr xs \<Rightarrow> Inr (pre # xs))"

text \<open>
  \<^verbatim>\<open>split_sequence\<close> (loading.py, lines 15-47). The result is \<open>None\<close> when the recursion never
  bottoms out (CPython then stops at its frame limit), \<open>Some (Inl e)\<close> when the function
  raises \<open>e\<close> and \<open>Some (Inr subs)\<close> when it returns the list \<open>subs\<close>.
\<close>

partial_function (option) split_sequence ::
  "Sequence \<Rightarrow> int \<Rightarrow> (py_error + Sequence list) option" where
  "split_sequence sequence max_seq_len =
     (let seq_len = int (length (token_ids sequence)) in
      if seq_len \<le> max_seq_len then Some (Inr [sequence])
      else
        (case py_get (token_types sequence) max_seq_len of
           Inl e \<Rightarrow> Some (Inl e)
         | Inr t \<Rightarrow>
            if t = TEXT then
              Option.bind (split_sequence (snd (split_at sequence max_seq_len)) max_seq_len)
                (\<lambda>r. Some (prepend (fst (split_at sequence max_seq_len)) r))
            else
              (case next_text (token_types sequence) (range_down (max_seq_len - 1)) of
                 Inl e \<Rightarrow> Some (Inl e)
               | Inr pre_form_text_tok_id \<Rightarrow>
                  if py_not pre_form_text_tok_id then
                    (case next_text (token_types sequence) (range_up max_seq_len seq_len) of
                       Inl e \<Rightarrow> Some (Inl e)
                     | Inr end_of_form \<Rightarrow>
                         if py_not end_of_form then Some (Inr [])
                         else split_sequence (snd (split_at sequence (the end_of_form))) max_seq_len)
                  else
                    Option.bind
                      (split_sequence
                         (snd (split_at sequence (the pre_form_text_tok_id + 1))) max_seq_len)
                      (\<lambda>r. Some
                         (prepend (fst (split_at sequence (the pre_form_text_tok_id + 1))) r)))))"

declare split_sequence.simps [code]

section \<open>Collated batches and the batch trimmer\<close>

text \<open>
  \<^verbatim>\<open>CollatedBatch\<close>: the dict returned by the collator, one field per key (prefixed \<open>cb_\<close> to keep
  them apart from the attributes of \<^verbatim>\<open>Sequence\<close>). A tensor of shape (batch, seq) is the list of
  its rows; \<^verbatim>\<open>None\<close> channels are \<open>None\<close>.
\<close>

record CollatedBatch =
  cb_sources :: "string list"
  cb_token_ids :: "int list list"
  cb_token_types :: "TokenType list list"
  cb_pos_vecs :: "int list list list"
  cb_pos_levels :: "int list list"
  cb_pos_encodings :: "real list list list option"
  cb_gpt_tokens :: "int list list list option"
  cb_use_shared_emb :: "bool list list option"
  cb_attention_mask :: "real list list"
  cb_sequence_lengths :: "int list"
  cb_prompt_lengths :: "int list option"
  cb_gen_labels :: "int list list option"
  cb_cls_labels :: "int list option"

text \<open>\<^verbatim>\<open>t[:, trim_start : trim_end]\<close>: every row is sliced along the sequence axis.\<close>

definition slice_rows :: "'a list list \<Rightarrow> int \<Rightarrow> int \<Rightarrow> 'a list list" where
  "slice_rows t trim_start trim_end = map (\<lambda>row. py_slice row trim_start trim_end) t"

text \<open>\<^verbatim>\<open>trim_batch\<close> (loading.py, lines 445-463).\<close>

definition trim_batch :: "CollatedBatch \<Rightarrow> int \<Rightarrow> int \<Rightarrow> CollatedBatch" where
  "trim_batch batch trim_start trim_end =
     \<lparr>cb_sources = cb_sources batch,
      cb_token_ids = slice_rows (cb_token_ids batch) trim_start trim_end,
      cb_token_types = slice_rows (cb_token_types batch) trim_start trim_end,
      cb_pos_vecs = slice_rows (cb_pos_vecs batch) trim_start trim_end,
      cb_pos_levels = slice_rows (cb_pos_levels batch) trim_start trim_end,
      cb_pos_encodings =
        map_option (\<lambda>t. slice_rows t trim_start trim_end) (cb_pos_encodings batch),
      cb_gpt_tokens = map_option (\<lambda>t. slice_rows t trim_start trim_end) (cb_gpt_tokens batch),
      cb_use_shared_emb =
        map_option (\<lambda>t. slice_rows t trim_start trim_end) (cb_use_shared_emb batch),
      cb_attention_mask = slice_rows (cb_attention_mask batch) trim_start trim_end,
      cb_sequence_lengths =
        map (\<lambda>seq_len. min (trim_end - trim_start) (max (seq_len - trim_start) 0))
          (cb_sequence_lengths batch),
      cb_prompt_lengths = cb_prompt_lengths batch,
      cb_gen_labels = map_option (\<lambda>t. slice_rows t trim_start trim_end) (cb_gen_labels batch),
      cb_cls_labels = cb_cls_labels batch\<rparr>"

text \<open>
  The spec's \<^verbatim>\<open>clamp(x, lo, hi)\<close>, after its own gloss: \<open>x\<close> "bounded below by \<open>lo\<close> and above by
  \<open>hi\<close>". This definition follows the spec's words, not the code.
\<close>

definition clamp :: "int \<Rightarrow> int \<Rightarrow> int \<Rightarrow> int" where
  "clamp x lo hi = max lo (min x hi)"

section \<open>The collator\<close>

text \<open>The fields of \<^verbatim>\<open>utils.TrainOptions\<close> that loading.py reads.\<close>

record TrainOptions =
  baseline :: bool
  post_proc :: bool
  shared_emb :: bool
  tpe :: string
  max_seq_len :: int
  num_classes :: nat

text \<open>
  What loading.py imports from modules that are not part of the sources at hand
  (math_tokenize, decode, constants, utils): the functions and constants are parameters of the
  model, gathered in one record. \<open>'opt\<close> is the type of operator trees, \<open>'task\<close> the type
  \<^verbatim>\<open>DownstreamTask\<close>.
\<close>

record ('opt, 'task) env =
  text_tokenizer :: "string \<Rightarrow> int list"
  tokenize_formula :: "'opt \<Rightarrow> TrainOptions \<Rightarrow> Sequence"
  decode_formula :: "int list \<Rightarrow> TokenType list \<Rightarrow> string"
  encode_pos :: "int list \<Rightarrow> int \<Rightarrow> string \<Rightarrow> real list"
  get_empty_pos_encoding :: "string \<Rightarrow> real list"
  is_cls_task :: "'task \<Rightarrow> bool"
  PADDING_TOKEN_ID :: int
  EOS_TOKEN :: string
  FORMULA_IDENTIFIER :: string
  EMPTY_POS_VECTOR :: "int list"
  TPE_NONE :: string

text \<open>The attributes of a \<^verbatim>\<open>Collator\<close> object.\<close>

record 'task Collator =
  options :: TrainOptions
  task :: "'task option"

text \<open>
  \<^verbatim>\<open>torch.nn.utils.rnn.pad_sequence(sequences, batch_first=True, padding_value=v)\<close>: every row is
  filled on the right with \<open>v\<close> up to the longest row; an empty list of rows is refused.
\<close>

definition pad_sequence :: "'a list list \<Rightarrow> 'a \<Rightarrow> py_error + 'a list list" where
  "pad_sequence sequences padding_value =
     (if sequences = [] then Inl RuntimeError
      else
        let max_len = Max (set (map length sequences))
        in Inr (map (\<lambda>t. t @ replicate (max_len - length t) padding_value) sequences))"

text \<open>\<^verbatim>\<open>pad_sequence(...) if batches else None\<close>.\<close>

definition pad_sequence_opt :: "'a list list \<Rightarrow> 'a \<Rightarrow> py_error + 'a list list option" where
  "pad_sequence_opt batches padding_value =
     (if batches = [] then Inr None
      else case pad_sequence batches padding_value of Inl e \<Rightarrow> Inl e | Inr t \<Rightarrow> Inr (Some t))"

text \<open>Sequencing of computations that may raise.\<close>

definition then_do :: "py_error + 'a \<Rightarrow> ('a \<Rightarrow> py_error + 'b) \<Rightarrow> py_error + 'b" where
  "then_do m f = (case m of Inl e \<Rightarrow> Inl e | Inr x \<Rightarrow> f x)"

text \<open>\<^verbatim>\<open>d[key]\<close> on a dict: a missing key raises KeyError.\<close>

definition dict_get :: "('k \<rightharpoonup> 'v) \<Rightarrow> 'k \<Rightarrow> py_error + 'v" where
  "dict_get d k = (case d k of None \<Rightarrow> Inl KeyError | Some v \<Rightarrow> Inr v)"

text \<open>A loop body that may raise, run over a list from left to right.\<close>

fun map_err :: "('a \<Rightarrow> py_error + 'b) \<Rightarrow> 'a list \<Rightarrow> py_error + 'b list" where
  "map_err f [] = Inr []"
| "map_err f (x # xs) =
     (case f x of
        Inl e \<Rightarrow> Inl e
      | Inr y \<Rightarrow> (case map_err f xs of Inl e \<Rightarrow> Inl e | Inr ys \<Rightarrow> Inr (y # ys)))"

text \<open>
  Line 485: \<^verbatim>\<open>max(len(gpt_token_vec) for sequence in batch for gpt_token_vec in sequence.gpt_tokens)\<close>;
  \<^verbatim>\<open>max\<close> of nothing raises ValueError.
\<close>

definition max_gpt_token_len :: "Sequence list \<Rightarrow> py_error + nat" where
  "max_gpt_token_len batch =
     (let lens = map length (concat (map gpt_tokens batch))
      in if lens = [] then Inl ValueError else Inr (Max (set lens)))"

text \<open>Lines 494-499: the position encodings of one sequence.\<close>

definition pos_encodings_of ::
  "('opt, 'task) env \<Rightarrow> TrainOptions \<Rightarrow> Sequence \<Rightarrow> real list list" where
  "pos_encodings_of env opts sequence =
     map (\<lambda>(token_type, pos_vec, pos_level).
            if token_type \<notin> {TEXT, START_FORMULA, END_FORMULA}
            then encode_pos env pos_vec pos_level (tpe opts)
            else get_empty_pos_encoding env (tpe opts))
       (zip (token_types sequence) (zip (pos_vecs sequence) (pos_levels sequence)))"

text \<open>Lines 502-505: the sub-token lists of one sequence, each filled up to the common width.\<close>

definition gpt_tokens_of :: "('opt, 'task) env \<Rightarrow> nat \<Rightarrow> Sequence \<Rightarrow> int list list" where
  "gpt_tokens_of env width sequence =
     map (\<lambda>gpt_token_vec.
            gpt_token_vec @ replicate (width - length gpt_token_vec) (PADDING_TOKEN_ID env))
       (gpt_tokens sequence)"

text \<open>
  Lines 515-516: \<^verbatim>\<open>gen_label = torch.clone(token_ids); gen_label[:prompt_length] = PADDING_TOKEN_ID\<close>.
\<close>

definition gen_label_of :: "('opt, 'task) env \<Rightarrow> int list \<Rightarrow> int \<Rightarrow> int list" where
  "gen_label_of env ids prompt_length =
     replicate (py_bound prompt_length (length ids)) (PADDING_TOKEN_ID env)
     @ drop (py_bound prompt_length (length ids)) ids"

text \<open>
  Lines 510-517, over the whole batch: the labels the task asks for. Without a task all three
  lists stay empty; a classification task reads \<^verbatim>\<open>meta["label"]\<close>, any other task reads
  \<^verbatim>\<open>meta["prompt_length"]\<close> and derives the generation labels.
\<close>

definition cls_labels_of ::
  "('opt, 'task) env \<Rightarrow> 'task Collator \<Rightarrow> Sequence list \<Rightarrow> py_error + int list" where
  "cls_labels_of env self batch =
     (case task self of
        None \<Rightarrow> Inr []
      | Some t \<Rightarrow>
          if is_cls_task env t then map_err (\<lambda>sequence. dict_get (meta sequence) ''label'') batch
          else Inr [])"

definition prompt_lengths_of ::
  "('opt, 'task) env \<Rightarrow> 'task Collator \<Rightarrow> Sequence list \<Rightarrow> py_error + int list" where
  "prompt_lengths_of env self batch =
     (case task self of
        None \<Rightarrow> Inr []
      | Some t \<Rightarrow>
          if is_cls_task env t then Inr []
          else map_err (\<lambda>sequence. dict_get (meta sequence) ''prompt_length'') batch)"

definition gen_labels_of ::
  "('opt, 'task) env \<Rightarrow> 'task Collator \<Rightarrow> Sequence list \<Rightarrow> py_error + int list list" where
  "gen_labels_of env self batch =
     (case task self of
        None \<Rightarrow> Inr []
      | Some t \<Rightarrow>
          if is_cls_task env t then Inr []
          else
            map_err (\<lambda>sequence.
                then_do (dict_get (meta sequence) ''prompt_length'')
                  (\<lambda>p. Inr (gen_label_of env (token_ids sequence) p)))
              batch)"

text \<open>\<^verbatim>\<open>torch.tensor(xs) if xs else None\<close>.\<close>

definition tensor_opt :: "'a list \<Rightarrow> 'a list option" where
  "tensor_opt xs = (if xs = [] then None else Some xs)"

text \<open>
  \<^verbatim>\<open>Collator.__call__\<close> (loading.py, lines 470-534). The rows that fill the vector-valued channels
  are zero vectors of the channel's width (\<^verbatim>\<open>EMPTY_POS_VECTOR\<close>'s for \<^verbatim>\<open>pos_vecs\<close>, the empty
  encoding's for \<^verbatim>\<open>pos_encodings\<close>) and rows of padding ids for \<^verbatim>\<open>gpt_tokens\<close>.
\<close>

definition Collator_call ::
  "('opt, 'task) env \<Rightarrow> 'task Collator \<Rightarrow> Sequence list \<Rightarrow> py_error + CollatedBatch" where
  "Collator_call env self batch =
     then_do (if shared_emb (options self) then max_gpt_token_len batch else Inr 0) (\<lambda>width.
     then_do (cls_labels_of env self batch) (\<lambda>cls_labels.
     then_do (prompt_lengths_of env self batch) (\<lambda>prompt_lengths.
     then_do (gen_labels_of env self batch) (\<lambda>gen_label_batches.
     then_do (pad_sequence (map token_ids batch) (PADDING_TOKEN_ID env)) (\<lambda>ids.
     then_do (pad_sequence (map token_types batch) TEXT) (\<lambda>types.
     then_do (pad_sequence (map pos_vecs batch)
                (replicate (length (EMPTY_POS_VECTOR env)) 0)) (\<lambda>vecs.
     then_do (pad_sequence (map pos_levels batch) 0) (\<lambda>levels.
     then_do (pad_sequence_opt
                (if tpe (options self) \<noteq> TPE_NONE env
                 then map (pos_encodings_of env (options self)) batch else [])
                (replicate (length (get_empty_pos_encoding env (tpe (options self)))) 0))
       (\<lambda>encodings.
     then_do (pad_sequence_opt
                (if shared_emb (options self) then map (gpt_tokens_of env width) batch else [])
                (replicate width (PADDING_TOKEN_ID env))) (\<lambda>gpt.
     then_do (pad_sequence_opt
                (if shared_emb (options self)
                 then map (\<lambda>sequence. map (\<lambda>v. length v \<noteq> 0) (gpt_tokens sequence)) batch
                 else [])
                False) (\<lambda>shared.
     then_do (pad_sequence (map (\<lambda>sequence. replicate (len sequence) 1) batch) 0) (\<lambda>mask.
     then_do (pad_sequence_opt gen_label_batches (PADDING_TOKEN_ID env)) (\<lambda>gen_labels.
       Inr \<lparr>cb_sources = map name batch,
            cb_token_ids = ids,
            cb_token_types = types,
            cb_pos_vecs = vecs,
            cb_pos_levels = levels,
            cb_pos_encodings = encodings,
            cb_gpt_tokens = gpt,
            cb_use_shared_emb = shared,
            cb_attention_mask = mask,
            cb_sequence_lengths = map (\<lambda>sequence. int (len sequence)) batch,
            cb_prompt_lengths = tensor_opt prompt_lengths,
            cb_gen_labels = gen_labels,
            cb_cls_labels = tensor_opt cls_labels\<rparr>)))))))))))))"

section \<open>The sequence tokenizer\<close>

text \<open>\<^verbatim>\<open>data_types.Formula\<close>: the LaTeX source of a formula and its operator tree.\<close>

record 'opt Formula =
  tex :: string
  opt :: 'opt

text \<open>\<^verbatim>\<open>str(i)\<close> for an index: its decimal numeral.\<close>

function str :: "nat \<Rightarrow> string" where
  "str n = (if n < 10 then [''0123456789'' ! n] else str (n div 10) @ [''0123456789'' ! (n mod 10)])"
  by pat_completeness auto
termination
  by (relation "measure id") auto

declare str.simps [simp del]

text \<open>
  \<^verbatim>\<open>text.split(sep)\<close>: the text between the occurrences of a separator, found from left to
  right; \<open>chunk\<close> is the part of the current piece read so far. An empty separator raises
  ValueError.
\<close>

function split_from :: "string \<Rightarrow> string \<Rightarrow> string \<Rightarrow> string list" where
  "split_from sep chunk txt =
     (if txt = [] then [chunk]
      else if sep \<noteq> [] \<and> take (length sep) txt = sep
        then chunk # split_from sep [] (drop (length sep) txt)
      else split_from sep (chunk @ [hd txt]) (tl txt))"
  by pat_completeness auto
termination
  by (relation "measure (\<lambda>(sep, chunk, txt). length txt)") auto

declare split_from.simps [simp del]

definition py_split :: "string \<Rightarrow> string \<Rightarrow> py_error + string list" where
  "py_split txt sep = (if sep = [] then Inl ValueError else Inr (split_from sep [] txt))"

text \<open>
  Lines 56-61 and 83-88: a run of text tokens with the given ids is appended to every channel
  (to \<^verbatim>\<open>gpt_tokens\<close> only when sub-token sharing is on).
\<close>

definition append_text ::
  "('opt, 'task) env \<Rightarrow> TrainOptions \<Rightarrow> Sequence \<Rightarrow> int list \<Rightarrow> Sequence" where
  "append_text env opts sequence ids =
     sequence
       \<lparr>token_ids := token_ids sequence @ ids,
        token_types := token_types sequence @ replicate (length ids) TEXT,
        pos_vecs := pos_vecs sequence @ replicate (length ids) (EMPTY_POS_VECTOR env),
        pos_levels := pos_levels sequence @ replicate (length ids) 0,
        gpt_tokens :=
          (if shared_emb opts then gpt_tokens sequence @ replicate (length ids) []
           else gpt_tokens sequence)\<rparr>"

text \<open>Lines 91-96 and 108-113: one structural marker, with the id 0.\<close>

definition append_marker ::
  "('opt, 'task) env \<Rightarrow> TrainOptions \<Rightarrow> Sequence \<Rightarrow> TokenType \<Rightarrow> Sequence" where
  "append_marker env opts sequence marker =
     sequence
       \<lparr>token_ids := token_ids sequence @ [0],
        token_types := token_types sequence @ [marker],
        pos_vecs := pos_vecs sequence @ [EMPTY_POS_VECTOR env],
        pos_levels := pos_levels sequence @ [0],
        gpt_tokens :=
          (if shared_emb opts then gpt_tokens sequence @ [[]] else gpt_tokens sequence)\<rparr>"

text \<open>Lines 99-105: the tokens of the formula itself.\<close>

definition append_formula_tokens :: "TrainOptions \<Rightarrow> Sequence \<Rightarrow> Sequence \<Rightarrow> Sequence" where
  "append_formula_tokens opts sequence formula_sequence =
     sequence
       \<lparr>token_ids := token_ids sequence @ token_ids formula_sequence,
        token_types := token_types sequence @ token_types formula_sequence,
        pos_vecs := pos_vecs sequence @ pos_vecs formula_sequence,
        pos_levels := pos_levels sequence @ pos_levels formula_sequence,
        gpt_tokens :=
          (if shared_emb opts then gpt_tokens sequence @ gpt_tokens formula_sequence
           else gpt_tokens sequence)\<rparr>"

text \<open>
  Lines 73-113: a formula found in the map is added, as delimited text in baseline mode and as
  a start marker, the formula's tokens and an end marker otherwise.
\<close>

definition add_formula ::
  "('opt, 'task) env \<Rightarrow> TrainOptions \<Rightarrow> Sequence \<Rightarrow> 'opt Formula \<Rightarrow> Sequence" where
  "add_formula env opts sequence formula =
     (if baseline opts then
        let formula_text =
              (if post_proc opts then
                 let formula_sequence = tokenize_formula env (opt formula) opts
                 in decode_formula env (token_ids formula_sequence) (token_types formula_sequence)
               else tex formula)
        in append_text env opts sequence
             (text_tokenizer env ('' <m> '' @ formula_text @ '' </m> ''))
      else
        append_marker env opts
          (append_formula_tokens opts (append_marker env opts sequence START_FORMULA)
             (tokenize_formula env (opt formula) opts))
          END_FORMULA)"

text \<open>
  The loop of lines 53-113 over the text chunks that are left, \<open>idx\<close> being the index of the
  first of them and \<open>n\<close> the number of all chunks. The state is the sequence built so far and
  the count of missing formulas.
\<close>

fun tokenize_chunks ::
  "('opt, 'task) env \<Rightarrow> TrainOptions \<Rightarrow> (string \<rightharpoonup> 'opt Formula) \<Rightarrow> nat \<Rightarrow> nat \<Rightarrow> string list
   \<Rightarrow> Sequence \<times> nat \<Rightarrow> Sequence \<times> nat" where
  "tokenize_chunks env opts formulas n idx [] state = state"
| "tokenize_chunks env opts formulas n idx (text_chunk # chunks) (sequence, num_missing_formulas) =
     (let sequence = append_text env opts sequence (text_tokenizer env text_chunk) in
      if int idx = int n - 1 then
        tokenize_chunks env opts formulas n (Suc idx) chunks (sequence, num_missing_formulas)
      else
        (case formulas (str idx) of
           None \<Rightarrow>
             tokenize_chunks env opts formulas n (Suc idx) chunks
               (sequence, num_missing_formulas + 1)
         | Some formula \<Rightarrow>
             tokenize_chunks env opts formulas n (Suc idx) chunks
               (add_formula env opts sequence formula, num_missing_formulas)))"

text \<open>\<^verbatim>\<open>tokenize_sequence\<close> (loading.py, lines 49-115).\<close>

definition tokenize_sequence ::
  "('opt, 'task) env \<Rightarrow> string \<Rightarrow> string \<Rightarrow> (string \<rightharpoonup> 'opt Formula) \<Rightarrow> TrainOptions
   \<Rightarrow> py_error + Sequence \<times> nat" where
  "tokenize_sequence env nm txt formulas opts =
     then_do (py_split txt (FORMULA_IDENTIFIER env)) (\<lambda>text_chunks.
       Inr (tokenize_chunks env opts formulas (length text_chunks) 0 text_chunks
              (Sequence_new nm, 0)))"

text \<open>The token types a formula contributes: what \<open>add_formula\<close> appends to an empty sequence.\<close>

definition formula_types ::
  "('opt, 'task) env \<Rightarrow> TrainOptions \<Rightarrow> 'opt Formula \<Rightarrow> TokenType list" where
  "formula_types env opts formula = token_types (add_formula env opts (Sequence_new []) formula)"

text \<open>
  The pieces of a text between its formula placeholders; a text with \<open>k\<close> placeholders has
  \<open>k + 1\<close> pieces.
\<close>

definition text_chunks_of :: "('opt, 'task) env \<Rightarrow> string \<Rightarrow> string list" where
  "text_chunks_of env txt = split_from (FORMULA_IDENTIFIER env) [] txt"

text \<open>
  The real token ids: the ids that the text tokenizer or the formula tokenizer emits for some
  input, and the id 0 that lines 91 and 108 give the two structural markers.
\<close>

definition emitted_id :: "('opt, 'task) env \<Rightarrow> int \<Rightarrow> bool" where
  "emitted_id env x \<longleftrightarrow>
     x = 0
     \<or> (\<exists>txt. x \<in> set (text_tokenizer env txt))
     \<or> (\<exists>tree opts. x \<in> set (token_ids (tokenize_formula env tree opts)))"

section \<open>The problem-solving dataset\<close>

text \<open>\<^verbatim>\<open>data_types.Article\<close>: a text with formula placeholders (the key \<^verbatim>\<open>text\<close>, primed here since \<open>text\<close> is a keyword) and the formulas by index.\<close>

record 'opt Article =
  text' :: string
  formulas :: "string \<rightharpoonup> 'opt Formula"

text \<open>\<^verbatim>\<open>data_types.SolvingTaskSample\<close>.\<close>

record 'opt SolvingTaskSample =
  problem :: "'opt Article"
  steps :: "'opt Article"
  answer :: "'opt Article"

text \<open>The attributes of the base class \<^verbatim>\<open>Dataset\<close> (lines 117-128).\<close>

record Dataset =
  data :: "Sequence list"
  num_missing_formulas :: nat
  trimmed_sequences :: nat

definition Dataset_init :: Dataset where
  "Dataset_init = \<lparr>data = [], num_missing_formulas = 0, trimmed_sequences = 0\<rparr>"

text \<open>
  Lines 405-413: the three tokenized components of a sample and the number of formulas they
  miss together.
\<close>

definition solving_sequences ::
  "('opt, 'task) env \<Rightarrow> TrainOptions \<Rightarrow> 'opt SolvingTaskSample
   \<Rightarrow> py_error + Sequence \<times> Sequence \<times> Sequence \<times> nat" where
  "solving_sequences env opts sample =
     then_do (tokenize_sequence env []
                (''Question: '' @ text' (problem sample) @ '' [SEP] Solution: '')
                (formulas (problem sample)) opts)
       (\<lambda>(problem_sequence, missing_problem).
     then_do (tokenize_sequence env []
                (text' (steps sample) @ '' [SEP] Final Answer: '')
                (formulas (steps sample)) opts)
       (\<lambda>(steps_sequence, missing_steps).
     then_do (tokenize_sequence env []
                (text' (answer sample) @ EOS_TOKEN env)
                (formulas (answer sample)) opts)
       (\<lambda>(answer_sequence, missing_answer).
       Inr (problem_sequence, steps_sequence, answer_sequence,
            missing_problem + missing_steps + missing_answer))))"

text \<open>Lines 404-422: the body of the loop, for one sample.\<close>

definition solving_add ::
  "('opt, 'task) env \<Rightarrow> TrainOptions \<Rightarrow> Dataset \<Rightarrow> 'opt SolvingTaskSample
   \<Rightarrow> py_error + Dataset" where
  "solving_add env opts self sample =
     then_do (solving_sequences env opts sample)
       (\<lambda>(problem_sequence, steps_sequence, answer_sequence, missing).
          let sequence = seq_add (seq_add problem_sequence steps_sequence) answer_sequence
          in Inr \<lparr>data =
                    data self
                    @ [sequence\<lparr>meta := [''prompt_length'' \<mapsto> int (len problem_sequence)]\<rparr>],
                  num_missing_formulas = num_missing_formulas self + missing,
                  trimmed_sequences =
                    (if max_seq_len opts < int (len sequence) then trimmed_sequences self + 1
                     else trimmed_sequences self)\<rparr>)"

fun solving_loop ::
  "('opt, 'task) env \<Rightarrow> TrainOptions \<Rightarrow> Dataset \<Rightarrow> 'opt SolvingTaskSample list
   \<Rightarrow> py_error + Dataset" where
  "solving_loop env opts self [] = Inr self"
| "solving_loop env opts self (sample # samples) =
     then_do (solving_add env opts self sample) (\<lambda>self. solving_loop env opts self samples)"

text \<open>\<^verbatim>\<open>ProblemSolvingDataset.__init__\<close> (loading.py, lines 400-425).\<close>

definition ProblemSolvingDataset_init ::
  "('opt, 'task) env \<Rightarrow> 'opt SolvingTaskSample list \<Rightarrow> TrainOptions \<Rightarrow> py_error + Dataset" where
  "ProblemSolvingDataset_init env samples opts = solving_loop env opts Dataset_init samples"

text \<open>A sample overflows when its three components together are longer than \<^verbatim>\<open>max_seq_len\<close>.\<close>

definition overflows ::
  "('opt, 'task) env \<Rightarrow> TrainOptions \<Rightarrow> 'opt SolvingTaskSample \<Rightarrow> bool" where
  "overflows env opts sample =
     (case solving_sequences env opts sample of
        Inl e \<Rightarrow> False
      | Inr (problem_sequence, steps_sequence, answer_sequence, missing) \<Rightarrow>
          max_seq_len opts < int (len problem_sequence + len steps_sequence + len answer_sequence))"

section \<open>The answer-scoring dataset\<close>

text \<open>
  The attributes of an \<^verbatim>\<open>AnswerScoringDataset\<close> object (lines 265-281), on top of those of the
  base class. The options are the field \<open>options'\<close>, the collator having an \<open>options\<close> of its
  own. The example bank maps a problem id to the examples of each grade.
\<close>

record AnswerScoringDataset = Dataset +
  options' :: TrainOptions
  problems :: "int \<rightharpoonup> Sequence"
  example_bank :: "int \<rightharpoonup> (int \<rightharpoonup> Sequence list)"
  qs_prefix_seq :: Sequence
  scores_seq :: Sequence
  example_prefix_seq :: Sequence
  answer_prefix_seq :: Sequence
  cls_seq :: Sequence
  grade_to_score_seq :: "int \<rightharpoonup> Sequence"

text \<open>
  The outcomes of the calls to the \<^verbatim>\<open>random\<close> module during one \<^verbatim>\<open>__getitem__\<close>:
  \<open>random_sample g population k\<close> is what \<^verbatim>\<open>random.sample(population, k)\<close> returns in the
  iteration for grade \<open>g\<close>, and \<open>random_shuffle n xs\<close> is the order in which the \<open>n\<close>-th call
  of \<^verbatim>\<open>random.shuffle\<close> leaves the list \<open>xs\<close>.
\<close>

record random_source =
  random_sample :: "nat \<Rightarrow> Sequence list \<Rightarrow> nat \<Rightarrow> Sequence list"
  random_shuffle :: "nat \<Rightarrow> Sequence list \<Rightarrow> Sequence list"

text \<open>
  What the \<^verbatim>\<open>random\<close> module guarantees: a sample of size \<open>k\<close> consists of \<open>k\<close> elements of the
  population, and a shuffle keeps the elements of the list.
\<close>

definition draws_from_population :: "random_source \<Rightarrow> bool" where
  "draws_from_population rnd \<longleftrightarrow>
     (\<forall>g population k. k \<le> length population \<longrightarrow>
        length (random_sample rnd g population k) = k
        \<and> set (random_sample rnd g population k) \<subseteq> set population)
     \<and> (\<forall>n xs. set (random_shuffle rnd n xs) = set xs)"

text \<open>
  Line 331: the examples of one grade, without those whose \<^verbatim>\<open>problem_log_id\<close> is the sample's.
\<close>

fun other_answers :: "Sequence \<Rightarrow> Sequence list \<Rightarrow> py_error + Sequence list" where
  "other_answers sample [] = Inr []"
| "other_answers sample (example # examples) =
     then_do (dict_get (meta example) ''problem_log_id'') (\<lambda>example_log_id.
     then_do (dict_get (meta sample) ''problem_log_id'') (\<lambda>sample_log_id.
     then_do (other_answers sample examples) (\<lambda>others.
       Inr (if example_log_id \<noteq> sample_log_id then example # others else others))))"

text \<open>
  Lines 330-335: the loop over the grades that are left, with the lists \<^verbatim>\<open>initial_examples\<close>
  and \<^verbatim>\<open>additional_examples\<close> built so far.
\<close>

fun gather_examples ::
  "random_source \<Rightarrow> (int \<rightharpoonup> Sequence list) \<Rightarrow> Sequence \<Rightarrow> nat list
   \<Rightarrow> Sequence list \<times> Sequence list \<Rightarrow> py_error + Sequence list \<times> Sequence list" where
  "gather_examples rnd graded sample [] found = Inr found"
| "gather_examples rnd graded sample (grade # grades) (initial_examples, additional_examples) =
     then_do (dict_get graded (int grade)) (\<lambda>bank_examples.
     then_do (other_answers sample bank_examples) (\<lambda>examples.
       if examples \<noteq> [] then
         (case random_sample rnd grade examples (min (length examples) 5) of
            [] \<Rightarrow> Inl IndexError
          | first # rest \<Rightarrow>
              gather_examples rnd graded sample grades
                (initial_examples @ [first], additional_examples @ rest))
       else gather_examples rnd graded sample grades (initial_examples, additional_examples)))"

text \<open>Line 343: an example framed by the example prefix and the text of its grade.\<close>

definition frame_example :: "AnswerScoringDataset \<Rightarrow> Sequence \<Rightarrow> py_error + Sequence" where
  "frame_example self example =
     then_do (dict_get (meta example) ''label'') (\<lambda>label.
     then_do (dict_get (grade_to_score_seq self) label) (\<lambda>score_seq.
       Inr (seq_add (seq_add (example_prefix_seq self) example) score_seq)))"

text \<open>
  Lines 342-347: the framed examples are taken in order until the next one would exceed
  \<^verbatim>\<open>max_seq_len\<close>.
\<close>

fun take_examples ::
  "AnswerScoringDataset \<Rightarrow> int \<Rightarrow> Sequence list \<Rightarrow> py_error + Sequence list" where
  "take_examples self base_len [] = Inr []"
| "take_examples self base_len (example # examples) =
     then_do (frame_example self example) (\<lambda>example_seq.
       if max_seq_len (options' self) < base_len + int (len example_seq) then Inr []
       else
         then_do (take_examples self (base_len + int (len example_seq)) examples)
           (\<lambda>example_sequences. Inr (example_seq # example_sequences)))"

text \<open>\<^verbatim>\<open>AnswerScoringDataset.__getitem__\<close> (loading.py, lines 320-355).\<close>

definition AnswerScoringDataset_getitem ::
  "random_source \<Rightarrow> AnswerScoringDataset \<Rightarrow> int \<Rightarrow> py_error + Sequence" where
  "AnswerScoringDataset_getitem rnd self index =
     then_do (py_get (data self) index) (\<lambda>sample.
     then_do (dict_get (meta sample) ''problem_id'') (\<lambda>problem_id.
     then_do (dict_get (problems self) problem_id) (\<lambda>problem_sequence.
     then_do (case example_bank self problem_id of
                None \<Rightarrow> Inr ([], [])
              | Some graded \<Rightarrow>
                  gather_examples rnd graded sample [0..<num_classes (options' self)] ([], []))
       (\<lambda>(initial_examples, additional_examples).
     then_do (take_examples self
                (int (len (qs_prefix_seq self) + len problem_sequence + len (scores_seq self)
                      + len (answer_prefix_seq self) + len sample + len (cls_seq self)))
                (random_shuffle rnd 0 initial_examples @ random_shuffle rnd 1 additional_examples))
       (\<lambda>example_sequences.
     then_do (dict_get (meta sample) ''label'') (\<lambda>label.
       Inr ((seq_add
               (foldl seq_add
                  (seq_add (seq_add (qs_prefix_seq self) problem_sequence) (scores_seq self))
                  example_sequences)
               (seq_add (seq_add (answer_prefix_seq self) sample) (cls_seq self)))
            \<lparr>meta := [''label'' \<mapsto> label]\<rparr>)))))))"

section \<open>Example inputs\<close>

text \<open>A collated batch of one sequence of five text tokens, the first two of them prompt.\<close>

definition example_collated :: CollatedBatch where
  "example_collated =
     \<lparr>cb_sources = [''a''],
      cb_token_ids = [[11, 12, 13, 14, 15]],
      cb_token_types = [[TEXT, TEXT, TEXT, TEXT, TEXT]],
      cb_pos_vecs = [[[0], [0], [0], [0], [0]]],
      cb_pos_levels = [[0, 0, 0, 0, 0]],
      cb_pos_encodings = None,
      cb_gpt_tokens = None,
      cb_use_shared_emb = None,
      cb_attention_mask = [[1, 1, 1, 1, 1]],
      cb_sequence_lengths = [5],
      cb_prompt_lengths = Some [2],
      cb_gen_labels = Some [[- 100, - 100, 13, 14, 15]],
      cb_cls_labels = None\<rparr>"

text \<open>
  A text token, a formula of three tokens and a closing text token: the only text token
  before the formula sits at index 0.
\<close>

definition text_first_example :: Sequence where
  "text_first_example =
     \<lparr>name = ''a'',
      token_ids = [101, 0, 7, 0, 102],
      token_types = [TEXT, START_FORMULA, OP, END_FORMULA, TEXT],
      pos_vecs = [[0], [0], [0], [0], [0]],
      pos_levels = [0, 0, 0, 0, 0],
      gpt_tokens = [],
      meta = Map.empty\<rparr>"

text \<open>Two text tokens, a formula of three tokens and a closing text token.\<close>

definition two_text_example :: Sequence where
  "two_text_example =
     \<lparr>name = ''b'',
      token_ids = [101, 102, 0, 7, 0, 103],
      token_types = [TEXT, TEXT, START_FORMULA, OP, END_FORMULA, TEXT],
      pos_vecs = [[0], [0], [0], [0], [0], [0]],
      pos_levels = [0, 0, 0, 0, 0, 0],
      gpt_tokens = [],
      meta = Map.empty\<rparr>"

text \<open>Two text tokens, two formulas of three tokens with no text between them, a text token.\<close>

definition adjacent_formulas_example :: Sequence where
  "adjacent_formulas_example =
     \<lparr>name = ''c'',
      token_ids = [101, 102, 0, 7, 0, 0, 8, 0, 103],
      token_types = [TEXT, TEXT, START_FORMULA, OP, END_FORMULA,
                     START_FORMULA, OP, END_FORMULA, TEXT],
      pos_vecs = [[0], [0], [0], [0], [0], [0], [0], [0], [0]],
      pos_levels = [0, 0, 0, 0, 0, 0, 0, 0, 0],
      gpt_tokens = [],
      meta = Map.empty\<rparr>"

text \<open>
  Stand-ins for the collaborators: a tokenizer that turns every character into one token, a
  formula tokenizer that yields an operator and its end marker, and the constants.
\<close>

datatype example_task = Generation | Classification

definition example_env :: "(unit, example_task) env" where
  "example_env =
     \<lparr>text_tokenizer = (\<lambda>txt. replicate (length txt) 1),
      tokenize_formula = (\<lambda>tree opts.
        \<lparr>name = [], token_ids = [7, 0], token_types = [OP, END], pos_vecs = [[1], [1]],
         pos_levels = [0, 1], gpt_tokens = [], meta = Map.empty\<rparr>),
      decode_formula = (\<lambda>ids types. ''x''),
      encode_pos = (\<lambda>pos_vec pos_level mode. [0]),
      get_empty_pos_encoding = (\<lambda>mode. [0]),
      is_cls_task = (\<lambda>t. t = Classification),
      PADDING_TOKEN_ID = - 100,
      EOS_TOKEN = ''<eos>'',
      FORMULA_IDENTIFIER = ''[F]'',
      EMPTY_POS_VECTOR = [0],
      TPE_NONE = ''none''\<rparr>"

definition example_options :: TrainOptions where
  "example_options =
     \<lparr>baseline = False, post_proc = False, shared_emb = False, tpe = ''none'',
      max_seq_len = 4, num_classes = 5\<rparr>"

definition example_collator :: "example_task Collator" where
  "example_collator = \<lparr>options = example_options, task = Some Generation\<rparr>"

text \<open>A batch of two sequences, of six and of five tokens, with prompts of two and one.\<close>

definition example_batch :: "Sequence list" where
  "example_batch =
     [two_text_example\<lparr>meta := [''prompt_length'' \<mapsto> 2]\<rparr>,
      text_first_example\<lparr>meta := [''prompt_length'' \<mapsto> 1]\<rparr>]"

text \<open>A solving sample without formulas; its full sequence is far longer than four tokens.\<close>

definition example_solving :: "unit SolvingTaskSample" where
  "example_solving =
     \<lparr>problem = \<lparr>text' = ''1+1'', formulas = Map.empty\<rparr>,
      steps = \<lparr>text' = ''add'', formulas = Map.empty\<rparr>,
      answer = \<lparr>text' = ''2'', formulas = Map.empty\<rparr>\<rparr>"

text \<open>
  An answer-scoring dataset with three answers to problem 7. The first and the third answer
  come from the same problem log.
\<close>

definition one_token :: "int \<Rightarrow> (string \<rightharpoonup> int) \<Rightarrow> Sequence" where
  "one_token tok m =
     \<lparr>name = [], token_ids = [tok], token_types = [TEXT], pos_vecs = [[0]], pos_levels = [0],
      gpt_tokens = [], meta = m\<rparr>"

definition answer_a :: Sequence where
  "answer_a = one_token 21 [''problem_id'' \<mapsto> 7, ''problem_log_id'' \<mapsto> 1, ''label'' \<mapsto> 0]"

definition answer_b :: Sequence where
  "answer_b = one_token 22 [''problem_id'' \<mapsto> 7, ''problem_log_id'' \<mapsto> 2, ''label'' \<mapsto> 0]"

definition answer_c :: Sequence where
  "answer_c = one_token 23 [''problem_id'' \<mapsto> 7, ''problem_log_id'' \<mapsto> 1, ''label'' \<mapsto> 1]"

definition example_scoring :: AnswerScoringDataset where
  "example_scoring =
     \<lparr>data = [answer_a, answer_b, answer_c],
      num_missing_formulas = 0,
      trimmed_sequences = 0,
      options' = example_options\<lparr>max_seq_len := 100\<rparr>,
      problems = [7 \<mapsto> one_token 30 Map.empty],
      example_bank =
        [7 \<mapsto> [0 \<mapsto> [answer_a, answer_b], 1 \<mapsto> [answer_c], 2 \<mapsto> [], 3 \<mapsto> [], 4 \<mapsto> []]],
      qs_prefix_seq = one_token 1 Map.empty,
      scores_seq = one_token 2 Map.empty,
      example_prefix_seq = one_token 3 Map.empty,
      answer_prefix_seq = one_token 4 Map.empty,
      cls_seq = one_token 5 Map.empty,
      grade_to_score_seq =
        [0 \<mapsto> one_token 10 Map.empty, 1 \<mapsto> one_token 11 Map.empty,
         2 \<mapsto> one_token 12 Map.empty, 3 \<mapsto> one_token 13 Map.empty,
         4 \<mapsto> one_token 14 Map.empty]\<rparr>"

text \<open>A random source that samples the first elements and shuffles by reversing.\<close>

definition example_random :: random_source where
  "example_random =
     \<lparr>random_sample = (\<lambda>g population k. take k population),
      random_shuffle = (\<lambda>n xs. rev xs)\<rparr>"

section \<open>Properties of Python slicing\<close>

lemma py_bound_neg: "i < 0 \<Longrightarrow> int (py_bound i n) = max (i + int n) 0"
  by (simp add: py_bound_def max_def)

lemma py_bound_nonneg: "0 \<le> i \<Longrightarrow> int (py_bound i n) = min i (int n)"
  by (auto simp: py_bound_def min_def)

lemma py_bound_le: "py_bound i n \<le> n"
proof (cases "i < 0")
  case True
  then have "int (py_bound i n) \<le> int n" by (simp add: py_bound_neg max_def)
  then show ?thesis by simp
next
  case False
  then have "int (py_bound i n) \<le> int n" by (simp add: py_bound_nonneg)
  then show ?thesis by simp
qed

lemma py_bound_zero: "py_bound 0 n = 0"
  by (simp add: py_bound_def)

text \<open>
  Unless the start is counted from the front and the end from the back, a non-empty slice
  \<^verbatim>\<open>xs[a:b]\<close> has at most \<open>b - a\<close> elements.
\<close>

lemma py_bound_gap:
  assumes "a < 0 \<or> 0 \<le> b" and "py_bound a n < py_bound b n"
  shows "0 \<le> b - a \<and> int (py_bound b n) - int (py_bound a n) \<le> b - a"
proof -
  consider (nn) "a < 0" "b < 0" | (np) "a < 0" "0 \<le> b" | (pp) "0 \<le> a" "0 \<le> b"
    using assms(1) by linarith
  then show ?thesis
  proof cases
    case nn
    have "max (a + int n) 0 < max (b + int n) 0"
      using assms(2) nn py_bound_neg [of a n] py_bound_neg [of b n] by linarith
    then show ?thesis
      using nn by (simp add: py_bound_neg max_def split: if_splits)
  next
    case np
    have "int (py_bound b n) \<le> int n" using py_bound_le [of b n] by simp
    moreover have "a + int n \<le> int (py_bound a n)" using np by (simp add: py_bound_neg)
    ultimately show ?thesis using np by linarith
  next
    case pp
    have "min a (int n) < min b (int n)"
      using assms(2) pp py_bound_nonneg [of a n] py_bound_nonneg [of b n] by linarith
    then show ?thesis
      using pp by (simp add: py_bound_nonneg min_def split: if_splits)
  qed
qed

lemma py_bound_diff:
  assumes "a < 0 \<or> 0 \<le> b"
  shows "py_bound b n - py_bound a n \<le> py_bound (b - a) (py_bound b n - py_bound a n)"
proof (cases "py_bound b n \<le> py_bound a n")
  case True
  then show ?thesis by simp
next
  case False
  then have lt: "py_bound a n < py_bound b n" by simp
  from py_bound_gap [OF assms lt]
  have ba: "0 \<le> b - a" and gap: "int (py_bound b n) - int (py_bound a n) \<le> b - a" by simp_all
  from gap lt have "py_bound b n - py_bound a n \<le> nat (b - a)" by linarith
  then show ?thesis using ba by (simp add: py_bound_def)
qed

lemma py_slice_again:
  assumes "a < 0 \<or> 0 \<le> b"
  shows "py_slice (py_slice xs a b) 0 (b - a) = py_slice xs a b"
proof -
  define lo where "lo = py_bound a (length xs)"
  define hi where "hi = py_bound b (length xs)"
  define ys where "ys = take (hi - lo) (drop lo xs)"
  have hi: "hi \<le> length xs" unfolding hi_def by (rule py_bound_le)
  have len: "length ys = hi - lo" unfolding ys_def using hi by simp
  have "hi - lo \<le> py_bound (b - a) (hi - lo)"
    unfolding hi_def lo_def using assms by (rule py_bound_diff)
  then have "take (py_bound (b - a) (length ys)) ys = ys" by (simp add: len)
  then have "py_slice ys 0 (b - a) = ys" by (simp add: py_slice_def Let_def py_bound_zero)
  moreover have "py_slice xs a b = ys" by (simp add: py_slice_def Let_def ys_def lo_def hi_def)
  ultimately show ?thesis by simp
qed

section \<open>Properties of the batch trimmer\<close>

lemma slice_rows_again:
  "a < 0 \<or> 0 \<le> b \<Longrightarrow> slice_rows (slice_rows t a b) 0 (b - a) = slice_rows t a b"
  by (simp add: slice_rows_def py_slice_again)

lemma slice_rows_opt_again:
  "a < 0 \<or> 0 \<le> b \<Longrightarrow>
   map_option (\<lambda>t. slice_rows t 0 (b - a)) (map_option (\<lambda>t. slice_rows t a b) c)
   = map_option (\<lambda>t. slice_rows t a b) c"
  by (cases c) (simp_all add: slice_rows_again)

text \<open>The recomputed lengths are stable under a second trim, whatever the offsets.\<close>

lemma lengths_again:
  "map (\<lambda>seq_len. min (b - a - 0) (max (seq_len - 0) 0))
     (map (\<lambda>seq_len. min (b - a) (max (seq_len - a) 0)) ls)
   = map (\<lambda>seq_len. min (b - a) (max (seq_len - a) (0::int))) ls"
  by (induction ls) auto

text \<open>
  C5, as the code has it: when the window is not reversed (\<open>a \<le> b\<close>), row \<open>i\<close> of the recomputed
  \<^verbatim>\<open>sequence_lengths\<close> is \<open>b - a\<close> bounded below by 0 and above by the original length minus
  \<open>a\<close>, and \<^verbatim>\<open>prompt_lengths\<close> and \<^verbatim>\<open>cls_labels\<close> pass through unchanged.
\<close>

theorem trim_batch_sequence_lengths:
  assumes "a \<le> b" and "i < length (cb_sequence_lengths B)"
  shows "cb_sequence_lengths (trim_batch B a b) ! i
           = clamp (b - a) 0 (cb_sequence_lengths B ! i - a)
         \<and> cb_prompt_lengths (trim_batch B a b) = cb_prompt_lengths B
         \<and> cb_cls_labels (trim_batch B a b) = cb_cls_labels B"
  using assms by (simp add: trim_batch_def clamp_def)

theorem trim_batch_sequence_lengths_witness:
  "cb_sequence_lengths (trim_batch example_collated 1 3) ! 0 = 2
   \<and> cb_prompt_lengths (trim_batch example_collated 1 3) = Some [2]
   \<and> cb_cls_labels (trim_batch example_collated 1 3) = None"
proof -
  have a: "(1::int) \<le> 3" by simp
  have i: "0 < length (cb_sequence_lengths example_collated)"
    by (simp add: example_collated_def)
  show ?thesis
    using trim_batch_sequence_lengths [OF a i]
    by (simp add: example_collated_def clamp_def)
qed

text \<open>
  C5 as stated fails for a reversed window: with \<open>a = 4\<close> and \<open>b = 1\<close> the code reports the
  length \<open>- 3\<close>, which is neither bounded below by 0 nor the clamped value.
\<close>

theorem trim_batch_sequence_lengths_counterexample:
  "cb_sequence_lengths (trim_batch example_collated 4 1) ! 0 = - 3
   \<and> clamp (1 - 4) 0 (cb_sequence_lengths example_collated ! 0 - 4) = 0
   \<and> cb_sequence_lengths (trim_batch example_collated 4 1) ! 0
       \<noteq> clamp (1 - 4) 0 (cb_sequence_lengths example_collated ! 0 - 4)"
  by (simp add: example_collated_def trim_batch_def clamp_def)

text \<open>
  C6, as the code has it: unless the start offset is counted from the front and the end
  offset from the back (\<open>0 \<le> a\<close> and \<open>b < 0\<close>), trimming the trimmed batch again with the
  offsets \<open>0\<close> and \<open>b - a\<close> changes no channel. All non-negative offsets are covered.
\<close>

theorem trim_batch_idempotent:
  assumes "a < 0 \<or> 0 \<le> b"
  shows "trim_batch (trim_batch B a b) 0 (b - a) = trim_batch B a b"
  unfolding trim_batch_def
  using assms lengths_again [of b a]
  by (simp add: slice_rows_again slice_rows_opt_again)

theorem trim_batch_idempotent_witness:
  "trim_batch (trim_batch example_collated 1 3) 0 (3 - 1) = trim_batch example_collated 1 3"
  by (rule trim_batch_idempotent) simp

text \<open>
  C6 as stated fails for a negative end offset: \<^verbatim>\<open>trim_batch(B, 2, -1)\<close> keeps the tokens at
  positions 2 and 3, and the second trim, with the end offset \<open>- 1 - 2\<close>, removes them.
\<close>

theorem trim_batch_idempotent_counterexample:
  "cb_token_ids (trim_batch example_collated 2 (- 1)) = [[13, 14]]
   \<and> cb_token_ids (trim_batch (trim_batch example_collated 2 (- 1)) 0 (- 1 - 2)) = [[]]
   \<and> trim_batch (trim_batch example_collated 2 (- 1)) 0 (- 1 - 2)
       \<noteq> trim_batch example_collated 2 (- 1)"
proof -
  have 1: "cb_token_ids (trim_batch example_collated 2 (- 1)) = [[13, 14]]"
    by (simp add: example_collated_def trim_batch_def slice_rows_def py_slice_def py_bound_def)
  have 2: "cb_token_ids (trim_batch (trim_batch example_collated 2 (- 1)) 0 (- 1 - 2)) = [[]]"
    by (simp add: example_collated_def trim_batch_def slice_rows_def py_slice_def py_bound_def)
  from 1 2 have "cb_token_ids (trim_batch (trim_batch example_collated 2 (- 1)) 0 (- 1 - 2))
      \<noteq> cb_token_ids (trim_batch example_collated 2 (- 1))" by simp
  then have "trim_batch (trim_batch example_collated 2 (- 1)) 0 (- 1 - 2)
      \<noteq> trim_batch example_collated 2 (- 1)" by metis
  with 1 2 show ?thesis by simp
qed

section \<open>Properties of the sequence splitter\<close>

lemma next_text_mem: "next_text tys idxs = Inr (Some i) \<Longrightarrow> i \<in> set idxs"
  by (induction idxs) (auto split: sum.splits if_splits)

lemma next_text_is_text:
  "next_text tys idxs = Inr (Some i) \<Longrightarrow> py_get tys i = Inr TEXT"
  by (induction idxs) (auto split: sum.splits if_splits)

lemma range_up_mem: "i \<in> set (range_up a b) \<Longrightarrow> a \<le> i \<and> i < b"
  by (auto simp: range_up_def)

lemma range_down_mem: "i \<in> set (range_down a) \<Longrightarrow> 0 \<le> i \<and> i \<le> a"
  by (auto simp: range_down_def)

lemma len_snd_split_at: "len (snd (split_at s k)) = len s - py_bound k (len s)"
  by (simp add: split_at_def len_def py_slice_from_def)

lemma len_fst_split_at: "len (fst (split_at s k)) = py_bound k (len s)"
  using py_bound_le [of k "len s"] by (simp add: split_at_def len_def py_slice_to_def)

lemma post_shorter: "1 \<le> k \<Longrightarrow> 0 < len s \<Longrightarrow> len (snd (split_at s k)) < len s"
  by (auto simp: len_snd_split_at py_bound_def)

lemma truthy_range_up:
  assumes "next_text tys (range_up L n) = Inr e" and "\<not> py_not e"
  shows "L \<le> the e \<and> the e < n"
proof -
  from assms obtain i where "e = Some i" "i \<in> set (range_up L n)"
    by (auto simp: py_not_def split: option.splits dest: next_text_mem)
  then show ?thesis by (auto dest: range_up_mem)
qed

lemma truthy_range_down:
  assumes "next_text tys (range_down (L - 1)) = Inr p" and "\<not> py_not p"
  shows "1 \<le> the p \<and> the p \<le> L - 1"
proof -
  from assms obtain i where i: "p = Some i" "i \<in> set (range_down (L - 1))" "i \<noteq> 0"
    by (auto simp: py_not_def split: option.splits dest: next_text_mem)
  then have "0 \<le> i \<and> i \<le> L - 1" by (auto dest: range_down_mem)
  with i show ?thesis by simp
qed

lemma split_sequence_returns:
  assumes "1 \<le> L"
  shows "\<exists>r. split_sequence s L = Some r"
proof (induction s rule: measure_induct_rule [where f = len])
  case (less s)
  show ?case
  proof (cases "int (len s) \<le> L")
    case True
    then show ?thesis by (subst split_sequence.simps) (simp add: len_def)
  next
    case False
    then have pos: "0 < len s" using assms by simp
    have rec: "\<exists>r. split_sequence (snd (split_at s k)) L = Some r" if "1 \<le> k" for k
      using less.IH post_shorter pos that by blast
    have recb: "\<exists>r. Option.bind (split_sequence (snd (split_at s k)) L)
               (\<lambda>r. Some (prepend (fst (split_at s k)) r)) = Some r" if "1 \<le> k" for k
      using rec [OF that] by fastforce
    have e: "\<exists>r. split_sequence (snd (split_at s (the e))) L = Some r"
      if "next_text (token_types s) (range_up L (int (length (token_ids s)))) = Inr e"
        and "\<not> py_not e" for e
    proof -
      have "1 \<le> the e" using truthy_range_up [OF that] assms by simp
      then show ?thesis by (rule rec)
    qed
    have p: "\<exists>r. Option.bind (split_sequence (snd (split_at s (the p + 1))) L)
               (\<lambda>r. Some (prepend (fst (split_at s (the p + 1))) r)) = Some r"
      if "next_text (token_types s) (range_down (L - 1)) = Inr p" and "\<not> py_not p" for p
    proof -
      have "1 \<le> the p + 1" using truthy_range_down [OF that] by simp
      then show ?thesis by (rule recb)
    qed
    show ?thesis
      apply (subst split_sequence.simps)
      using False recb [OF assms] e p
      apply (simp add: len_def Let_def split: sum.splits)
      done
  qed
qed

lemma py_get_in_range: "0 \<le> i \<Longrightarrow> i < int (length xs) \<Longrightarrow> py_get xs i = Inr (xs ! nat i)"
  by (simp add: py_get_def)

lemma next_text_in_range:
  "\<forall>i\<in>set idxs. 0 \<le> i \<and> i < int (length tys) \<Longrightarrow> \<exists>r. next_text tys idxs = Inr r"
  by (induction idxs) (simp_all add: py_get_in_range)

lemma channels_aligned_split_at:
  assumes "channels_aligned s"
  shows "channels_aligned (fst (split_at s k))" and "channels_aligned (snd (split_at s k))"
  using assms
  by (simp_all add: channels_aligned_def split_at_def py_slice_to_def py_slice_from_def)

text \<open>
  On a sequence whose channels are aligned and for a maximum length of at least 1, the
  splitter reads no index out of range, and every sub-sequence it returns is aligned and
  within the maximum length. (The limit CPython puts on the depth of a recursion is not part
  of the model.)
\<close>

lemma split_sequence_lengths:
  assumes "1 \<le> L"
  shows "channels_aligned s \<Longrightarrow>
         \<exists>subs. split_sequence s L = Some (Inr subs)
                \<and> (\<forall>x\<in>set subs. len x \<le> nat L \<and> channels_aligned x)"
proof (induction s rule: measure_induct_rule [where f = len])
  case (less s)
  let ?ok = "\<lambda>s. \<exists>subs. split_sequence s L = Some (Inr subs)
                \<and> (\<forall>x\<in>set subs. len x \<le> nat L \<and> channels_aligned x)"
  show ?case
  proof (cases "int (len s) \<le> L")
    case True
    then have "split_sequence s L = Some (Inr [s])"
      by (subst split_sequence.simps) (simp add: len_def)
    with True less.prems show ?thesis by simp
  next
    case False
    then have long: "L < int (length (token_ids s))" by (simp add: len_def)
    with assms have pos: "0 < len s" unfolding len_def by linarith
    have tys: "length (token_types s) = length (token_ids s)"
      using less.prems by (simp add: channels_aligned_def)
    have rec: "?ok (snd (split_at s k))" if "1 \<le> k" for k
      using less.IH [OF post_shorter [OF that pos] channels_aligned_split_at(2) [OF less.prems]] .
    have recb: "\<exists>subs. Option.bind (split_sequence (snd (split_at s k)) L)
               (\<lambda>r. Some (prepend (fst (split_at s k)) r)) = Some (Inr subs)
           \<and> (\<forall>x\<in>set subs. len x \<le> nat L \<and> channels_aligned x)"
      if "1 \<le> k" "k \<le> L" for k
    proof -
      from rec [OF that(1)] obtain subs
        where "split_sequence (snd (split_at s k)) L = Some (Inr subs)"
          and "\<forall>x\<in>set subs. len x \<le> nat L \<and> channels_aligned x" by blast
      moreover have "len (fst (split_at s k)) \<le> nat L"
        using that by (simp add: len_fst_split_at py_bound_def)
      moreover have "channels_aligned (fst (split_at s k))"
        by (rule channels_aligned_split_at(1) [OF less.prems])
      ultimately show ?thesis by (simp add: prepend_def)
    qed
    from long assms tys have cut: "\<exists>t. py_get (token_types s) L = Inr t"
      by (simp add: py_get_in_range)
    have bwd: "\<exists>p. next_text (token_types s) (range_down (L - 1)) = Inr p"
      by (rule next_text_in_range) (use long tys in \<open>auto dest!: range_down_mem\<close>)
    have fwd: "\<exists>e. next_text (token_types s) (range_up L (int (length (token_ids s)))) = Inr e"
      by (rule next_text_in_range) (use assms tys in \<open>auto dest!: range_up_mem\<close>)
    from cut obtain t where t: "py_get (token_types s) L = Inr t" by blast
    from bwd obtain p where p: "next_text (token_types s) (range_down (L - 1)) = Inr p" by blast
    from fwd obtain e
      where e: "next_text (token_types s) (range_up L (int (length (token_ids s)))) = Inr e"
      by blast
    have skip: "?ok (snd (split_at s (the e)))" if "\<not> py_not e"
      using truthy_range_up [OF e that] assms by (intro rec) simp
    have found: "\<exists>subs. Option.bind (split_sequence (snd (split_at s (the p + 1))) L)
               (\<lambda>r. Some (prepend (fst (split_at s (the p + 1))) r)) = Some (Inr subs)
           \<and> (\<forall>x\<in>set subs. len x \<le> nat L \<and> channels_aligned x)" if "\<not> py_not p"
      using truthy_range_down [OF p that] by (intro recb) simp_all
    show ?thesis
      apply (subst split_sequence.simps)
      using False recb [OF assms order_refl] skip found
      apply (simp add: len_def Let_def t p e)
      done
  qed
qed

text \<open>
  C9: for a maximum length of at least 1 the splitter returns (a list or an exception) on
  every sequence, and each of its three recursive calls, in lines 31, 43 and 47, is made on a
  sequence strictly shorter than the caller's.
\<close>

theorem split_sequence_terminates:
  assumes "1 \<le> L"
  shows "(\<exists>r. split_sequence s L = Some r)
       \<and> (L < int (len s) \<longrightarrow> len (snd (split_at s L)) < len s)
       \<and> (\<forall>e. L < int (len s)
               \<and> next_text (token_types s) (range_up L (int (len s))) = Inr e \<and> \<not> py_not e
             \<longrightarrow> len (snd (split_at s (the e))) < len s)
       \<and> (\<forall>p. L < int (len s)
               \<and> next_text (token_types s) (range_down (L - 1)) = Inr p \<and> \<not> py_not p
             \<longrightarrow> len (snd (split_at s (the p + 1))) < len s)"
proof (intro conjI allI impI)
  show "\<exists>r. split_sequence s L = Some r" using assms by (rule split_sequence_returns)
next
  assume "L < int (len s)"
  then show "len (snd (split_at s L)) < len s" using assms by (intro post_shorter) simp_all
next
  fix e
  assume a: "L < int (len s)
    \<and> next_text (token_types s) (range_up L (int (len s))) = Inr e \<and> \<not> py_not e"
  then have "1 \<le> the e" using truthy_range_up [of "token_types s" L "int (len s)" e] assms by simp
  with a show "len (snd (split_at s (the e))) < len s" using assms by (intro post_shorter) simp_all
next
  fix p
  assume a: "L < int (len s)
    \<and> next_text (token_types s) (range_down (L - 1)) = Inr p \<and> \<not> py_not p"
  then have "1 \<le> the p + 1" using truthy_range_down [of "token_types s" L p] by simp
  with a show "len (snd (split_at s (the p + 1))) < len s"
    using assms by (intro post_shorter) simp_all
qed

theorem split_sequence_terminates_witness:
  "(\<exists>r. split_sequence two_text_example 3 = Some r)
   \<and> len (snd (split_at two_text_example 3)) < len two_text_example"
proof -
  have L: "(1::int) \<le> 3" by simp
  have n: "3 < int (len two_text_example)" by (simp add: two_text_example_def len_def)
  from split_sequence_terminates [OF L, of two_text_example] n show ?thesis by blast
qed

text \<open>
  C1 on the code: with the maximum length 3 the cut falls on the formula's last token; the
  backward scan finds the text token at index 0, the test in line 35 takes that index for
  "not found", and the splitter drops the text token together with the formula, which is
  three tokens long and fits the limit. Only the closing text token is returned.
\<close>

theorem split_sequence_drops_leading_text:
  "split_sequence text_first_example 3 = Some (Inr [snd (split_at text_first_example 4)])
   \<and> token_ids (snd (split_at text_first_example 4)) = [102]
   \<and> token_types text_first_example = [TEXT, START_FORMULA, OP, END_FORMULA, TEXT]"
proof -
  have n: "int (length (token_ids text_first_example)) = 5"
    by (simp add: text_first_example_def)
  have cut: "py_get (token_types text_first_example) 3 = Inr END_FORMULA"
    by (simp add: text_first_example_def py_get_def)
  have bwd: "next_text (token_types text_first_example) (range_down 2) = Inr (Some 0)"
    by (simp add: text_first_example_def range_down_def upto.simps py_get_def)
  have fwd: "next_text (token_types text_first_example) (range_up 3 5) = Inr (Some 4)"
    by (simp add: text_first_example_def range_up_def upto.simps py_get_def)
  have 1: "split_sequence text_first_example 3
           = split_sequence (snd (split_at text_first_example 4)) 3"
    by (subst split_sequence.simps) (simp add: n cut bwd fwd py_not_def)
  have 2: "token_ids (snd (split_at text_first_example 4)) = [102]"
    by (simp add: text_first_example_def split_at_def py_slice_from_def py_bound_def)
  have 3: "split_sequence (snd (split_at text_first_example 4)) 3
           = Some (Inr [snd (split_at text_first_example 4)])"
    by (subst split_sequence.simps) (simp add: 2)
  from 1 2 3 show ?thesis by (simp add: text_first_example_def)
qed

text \<open>
  The splitter cuts at text tokens only, so formulas that follow one another without a text
  token between them are kept or dropped together: with the maximum length 4 both formulas
  of three tokens are dropped.
\<close>

lemma split_sequence_drops_adjacent_formulas:
  "map_option (map_sum id (map token_ids)) (split_sequence adjacent_formulas_example 4)
   = Some (Inr [[101, 102], [103]])"
  by code_simp

section \<open>Properties of the collator\<close>


lemma then_do_Inr: "then_do m f = Inr y \<longleftrightarrow> (\<exists>x. m = Inr x \<and> f x = Inr y)"
  by (cases m) (simp_all add: then_do_def)

lemma pad_sequence_row:
  assumes "pad_sequence ss v = Inr rows" and "i < length ss"
  shows "rows ! i = ss ! i @ replicate (Max (set (map length ss)) - length (ss ! i)) v"
  using assms by (auto simp: pad_sequence_def Let_def split: if_splits)

lemma pad_sequence_length:
  assumes "pad_sequence ss v = Inr rows"
  shows "length rows = length ss"
  using assms by (auto simp: pad_sequence_def Let_def split: if_splits)

lemma map_err_Inr:
  "map_err f xs = Inr ys \<Longrightarrow> length ys = length xs \<and> (\<forall>i<length xs. f (xs ! i) = Inr (ys ! i))"
proof (induction xs arbitrary: ys)
  case Nil
  then show ?case by simp
next
  case (Cons x xs)
  then obtain y ys' where y: "f x = Inr y" "map_err f xs = Inr ys'" "ys = y # ys'"
    by (auto split: sum.splits)
  with Cons.IH [of ys'] show ?case by (auto simp: nth_Cons split: nat.splits)
qed

lemma Collator_call_channels:
  assumes "Collator_call env self batch = Inr B"
  shows "pad_sequence (map token_ids batch) (PADDING_TOKEN_ID env) = Inr (cb_token_ids B)"
    and "pad_sequence (map token_types batch) TEXT = Inr (cb_token_types B)"
    and "pad_sequence (map (\<lambda>sequence. replicate (len sequence) 1) batch) 0 = Inr (cb_attention_mask B)"
    and "\<exists>g. gen_labels_of env self batch = Inr g
            \<and> pad_sequence_opt g (PADDING_TOKEN_ID env) = Inr (cb_gen_labels B)"
  using assms unfolding Collator_call_def then_do_Inr by auto

lemma nth_padded:
  assumes "length xs \<le> j" and "j < length (xs @ replicate k v)"
  shows "(xs @ replicate k v) ! j = v"
  using assms by (simp add: nth_append)

text \<open>The example batch collates without an exception; three of its channels.\<close>

lemma example_collated_ok:
  "\<exists>B. Collator_call example_env example_collator example_batch = Inr B"
  by (simp add: Collator_call_def then_do_def example_env_def example_collator_def
      example_options_def example_batch_def cls_labels_of_def prompt_lengths_of_def
      gen_labels_of_def dict_get_def pad_sequence_def pad_sequence_opt_def
      two_text_example_def text_first_example_def len_def gen_label_of_def py_bound_def
      tensor_opt_def Let_def)


lemma example_types:
  "map_sum id cb_token_types (Collator_call example_env example_collator example_batch)
   = Inr [[TEXT, TEXT, START_FORMULA, OP, END_FORMULA, TEXT],
          [TEXT, START_FORMULA, OP, END_FORMULA, TEXT, TEXT]]"
  by (simp add: Collator_call_def then_do_def example_env_def example_collator_def
      example_options_def example_batch_def cls_labels_of_def prompt_lengths_of_def
      gen_labels_of_def dict_get_def pad_sequence_def pad_sequence_opt_def
      two_text_example_def text_first_example_def len_def gen_label_of_def py_bound_def
      tensor_opt_def Let_def)

lemma example_ids:
  "map_sum id cb_token_ids (Collator_call example_env example_collator example_batch)
   = Inr [[101, 102, 0, 7, 0, 103], [101, 0, 7, 0, 102, - 100]]"
  by (simp add: Collator_call_def then_do_def example_env_def example_collator_def
      example_options_def example_batch_def cls_labels_of_def prompt_lengths_of_def
      gen_labels_of_def dict_get_def pad_sequence_def pad_sequence_opt_def
      two_text_example_def text_first_example_def len_def gen_label_of_def py_bound_def
      tensor_opt_def Let_def)

lemma example_gen:
  "map_sum id cb_gen_labels (Collator_call example_env example_collator example_batch)
   = Inr (Some [[- 100, - 100, 0, 7, 0, 103], [- 100, 0, 7, 0, 102, - 100]])"
  by (simp add: Collator_call_def then_do_def example_env_def example_collator_def
      example_options_def example_batch_def cls_labels_of_def prompt_lengths_of_def
      gen_labels_of_def dict_get_def pad_sequence_def pad_sequence_opt_def
      two_text_example_def text_first_example_def len_def gen_label_of_def py_bound_def
      tensor_opt_def Let_def)
text \<open>
  C3: when collation succeeds, row \<open>i\<close> of \<^verbatim>\<open>token_ids\<close> is sequence \<open>i\<close>'s ids followed by
  \<open>max_len - l\<^sub>i\<close> padding ids, and row \<open>i\<close> of \<^verbatim>\<open>attention_mask\<close> is \<open>l\<^sub>i\<close> ones followed by
  \<open>max_len - l\<^sub>i\<close> zeros, where \<open>max_len\<close> is the largest length in the batch.
\<close>

theorem collated_rows:
  assumes "Collator_call env self batch = Inr B" and "i < length batch"
  shows "cb_token_ids B ! i
           = token_ids (batch ! i)
             @ replicate (Max (set (map len batch)) - len (batch ! i)) (PADDING_TOKEN_ID env)
         \<and> cb_attention_mask B ! i
           = replicate (len (batch ! i)) 1
             @ replicate (Max (set (map len batch)) - len (batch ! i)) 0"
proof -
  have m: "map length (map token_ids batch) = map len batch"
    by (simp add: len_def)
  have m': "map length (map (\<lambda>sequence. replicate (len sequence) (1::real)) batch) = map len batch"
    by simp
  from Collator_call_channels(1) [OF assms(1)] assms(2)
  have "cb_token_ids B ! i
           = token_ids (batch ! i)
             @ replicate (Max (set (map len batch)) - len (batch ! i)) (PADDING_TOKEN_ID env)"
    using pad_sequence_row [of "map token_ids batch" "PADDING_TOKEN_ID env" "cb_token_ids B" i]
    by (simp only: m) (simp add: len_def)
  moreover from Collator_call_channels(3) [OF assms(1)] assms(2)
  have "cb_attention_mask B ! i
           = replicate (len (batch ! i)) 1
             @ replicate (Max (set (map len batch)) - len (batch ! i)) 0"
    using pad_sequence_row [of "map (\<lambda>sequence. replicate (len sequence) 1) batch" 0
        "cb_attention_mask B" i]
    by (simp only: m') simp
  ultimately show ?thesis by simp
qed

theorem collated_rows_witness:
  "\<exists>B. Collator_call example_env example_collator example_batch = Inr B
       \<and> cb_token_ids B ! 1 = [101, 0, 7, 0, 102, - 100]
       \<and> cb_attention_mask B ! 1 = [1, 1, 1, 1, 1, 0]"
proof -
  obtain B where B: "Collator_call example_env example_collator example_batch = Inr B"
    using example_collated_ok by blast
  have i: "1 < length example_batch" by (simp add: example_batch_def)
  have m: "Max (set (map len example_batch)) = 6"
    by (simp add: example_batch_def text_first_example_def two_text_example_def len_def)
  have s: "example_batch ! 1 = text_first_example\<lparr>meta := [''prompt_length'' \<mapsto> 1]\<rparr>"
    by (simp add: example_batch_def)
  from collated_rows [OF B i]
  have "cb_token_ids B ! 1 = [101, 0, 7, 0, 102, - 100]
       \<and> cb_attention_mask B ! 1 = [1, 1, 1, 1, 1, 0]"
    unfolding m s by (simp add: text_first_example_def len_def example_env_def numeral_eq_Suc)
  with B show ?thesis by blast
qed

text \<open>
  C2, as the code has it: beyond a sequence's true length the \<^verbatim>\<open>token_ids\<close> row holds
  \<^verbatim>\<open>PADDING_TOKEN_ID\<close>, which differs from every real token id as long as that constant is none
  of the ids the tokenizers emit and not the marker id 0; the \<^verbatim>\<open>token_types\<close> row holds
  \<^verbatim>\<open>TokenType.TEXT\<close>, the very type that every text token of a sequence is given, and so is no
  sentinel.
\<close>

theorem collated_padding_values:
  assumes "Collator_call env self batch = Inr B" and "i < length batch"
    and "\<not> emitted_id env (PADDING_TOKEN_ID env)"
  shows "(\<forall>j. length (token_ids (batch ! i)) \<le> j \<and> j < length (cb_token_ids B ! i)
             \<longrightarrow> cb_token_ids B ! i ! j = PADDING_TOKEN_ID env
                 \<and> (\<forall>x. emitted_id env x \<longrightarrow> cb_token_ids B ! i ! j \<noteq> x))
       \<and> (\<forall>j. length (token_types (batch ! i)) \<le> j \<and> j < length (cb_token_types B ! i)
             \<longrightarrow> cb_token_types B ! i ! j = TEXT)
       \<and> (\<forall>s ids. token_types (append_text env (options self) s ids)
                     = token_types s @ replicate (length ids) TEXT)"
proof -
  from pad_sequence_row [OF Collator_call_channels(1) [OF assms(1)]] assms(2)
  obtain k where ids: "cb_token_ids B ! i = token_ids (batch ! i) @ replicate k (PADDING_TOKEN_ID env)"
    by fastforce
  from pad_sequence_row [OF Collator_call_channels(2) [OF assms(1)]] assms(2)
  obtain k' where tys: "cb_token_types B ! i = token_types (batch ! i) @ replicate k' TEXT"
    by fastforce
  have pad: "cb_token_ids B ! i ! j = PADDING_TOKEN_ID env"
    if "length (token_ids (batch ! i)) \<le> j \<and> j < length (cb_token_ids B ! i)" for j
    using that unfolding ids by (intro nth_padded) simp_all
  have apart: "cb_token_ids B ! i ! j \<noteq> x"
    if "length (token_ids (batch ! i)) \<le> j \<and> j < length (cb_token_ids B ! i)"
      and "emitted_id env x" for j x
    using pad [OF that(1)] that(2) assms(3) by auto
  have tycell: "cb_token_types B ! i ! j = TEXT"
    if "length (token_types (batch ! i)) \<le> j \<and> j < length (cb_token_types B ! i)" for j
    using that unfolding tys by (intro nth_padded) simp_all
  have textty: "token_types (append_text env (options self) s ids)
             = token_types s @ replicate (length ids) TEXT" for s ids
    by (simp add: append_text_def)
  from pad apart tycell textty show ?thesis by blast
qed

lemma example_padding_id_not_emitted: "\<not> emitted_id example_env (PADDING_TOKEN_ID example_env)"
  by (auto simp: emitted_id_def example_env_def)

theorem collated_padding_values_witness:
  "\<exists>B. Collator_call example_env example_collator example_batch = Inr B
       \<and> length (token_ids (example_batch ! 1)) = 5 \<and> length (cb_token_ids B ! 1) = 6
       \<and> cb_token_ids B ! 1 ! 5 = - 100 \<and> cb_token_ids B ! 1 ! 5 \<noteq> 0
       \<and> cb_token_types B ! 1 ! 5 = TEXT"
proof -
  obtain B where B: "Collator_call example_env example_collator example_batch = Inr B"
    using example_collated_ok by blast
  have i: "1 < length example_batch" by (simp add: example_batch_def)
  have n: "length (token_ids (example_batch ! 1)) = 5" "length (token_types (example_batch ! 1)) = 5"
    by (simp_all add: example_batch_def text_first_example_def)
  have w: "length (cb_token_ids B ! 1) = 6"
    using example_ids B by simp
  have w': "length (cb_token_types B ! 1) = 6"
    using example_types B by simp
  have p: "PADDING_TOKEN_ID example_env = - 100" by (simp add: example_env_def)
  have z: "emitted_id example_env 0" by (simp add: emitted_id_def)
  from collated_padding_values [OF B i example_padding_id_not_emitted] n w w' p z
  have "cb_token_ids B ! 1 ! 5 = - 100 \<and> cb_token_ids B ! 1 ! 5 \<noteq> 0
        \<and> cb_token_types B ! 1 ! 5 = TEXT"
    by simp
  with B n w show ?thesis by blast
qed

text \<open>
  C2 as stated fails for the type channel: the second sequence of the example batch has five
  tokens, and the cell that pads its row carries \<^verbatim>\<open>TEXT\<close>, the same value as the real text token
  in that column of the first row.
\<close>

theorem collated_type_padding_counterexample:
  "map_sum id cb_token_types (Collator_call example_env example_collator example_batch)
     = Inr [[TEXT, TEXT, START_FORMULA, OP, END_FORMULA, TEXT],
            [TEXT, START_FORMULA, OP, END_FORMULA, TEXT, TEXT]]
   \<and> length (token_types (example_batch ! 1)) = 5
   \<and> token_types (example_batch ! 0) ! 5 = TEXT"
  using example_types by (simp add: example_batch_def text_first_example_def two_text_example_def)

lemma gen_label_of_length: "length (gen_label_of env ids p) = length ids"
  using py_bound_le [of p "length ids"] by (simp add: gen_label_of_def)

lemma gen_label_of_prompt:
  assumes "0 \<le> p" and "j < nat p" and "j < length ids"
  shows "gen_label_of env ids p ! j = PADDING_TOKEN_ID env"
proof -
  have "j < py_bound p (length ids)" using assms by (simp add: py_bound_def)
  then show ?thesis by (simp add: gen_label_of_def nth_append)
qed

lemma gen_label_of_rest:
  assumes "0 \<le> p" and "nat p \<le> j" and "j < length ids"
  shows "gen_label_of env ids p ! j = ids ! j"
proof -
  have b: "py_bound p (length ids) = nat p" using assms by (simp add: py_bound_def)
  show ?thesis using assms by (simp add: gen_label_of_def b nth_append)
qed

text \<open>
  C4: under a generative task, for a sequence with prompt length \<open>p\<close> (a length, so \<open>0 \<le> p\<close>),
  the \<^verbatim>\<open>gen_labels\<close> row holds the padding id at every index before \<open>p\<close> and the token id at
  every index from \<open>p\<close> up to the sequence's true length.
\<close>

theorem gen_labels_masked:
  assumes "Collator_call env self batch = Inr B"
    and "task self = Some t" and "\<not> is_cls_task env t"
    and "i < length batch"
    and "meta (batch ! i) ''prompt_length'' = Some p" and "0 \<le> p"
  shows "\<exists>G. cb_gen_labels B = Some G
           \<and> (\<forall>j. j < nat p \<and> j < length (G ! i) \<longrightarrow> G ! i ! j = PADDING_TOKEN_ID env)
           \<and> (\<forall>j. nat p \<le> j \<and> j < len (batch ! i) \<longrightarrow> G ! i ! j = token_ids (batch ! i) ! j)"
proof -
  let ?ids = "token_ids (batch ! i)"
  let ?f = "\<lambda>sequence. then_do (dict_get (meta sequence) ''prompt_length'')
              (\<lambda>p. Inr (gen_label_of env (token_ids sequence) p))"
  from Collator_call_channels(4) [OF assms(1)]
  obtain g where g: "gen_labels_of env self batch = Inr g"
    and pad: "pad_sequence_opt g (PADDING_TOKEN_ID env) = Inr (cb_gen_labels B)" by blast
  from g assms(2,3) have "map_err ?f batch = Inr g" by (simp add: gen_labels_of_def)
  from map_err_Inr [OF this] assms(4)
  have lg: "length g = length batch" and "?f (batch ! i) = Inr (g ! i)" by simp_all
  with assms(5) have gi: "g ! i = gen_label_of env ?ids p"
    by (simp add: then_do_def dict_get_def)
  from lg assms(4) have ne: "g \<noteq> []" by auto
  with pad have "\<exists>G. cb_gen_labels B = Some G \<and> pad_sequence g (PADDING_TOKEN_ID env) = Inr G"
    by (auto simp: pad_sequence_opt_def split: sum.splits)
  then obtain G where G: "cb_gen_labels B = Some G"
    and padG: "pad_sequence g (PADDING_TOKEN_ID env) = Inr G" by blast
  from pad_sequence_row [OF padG] lg assms(4)
  obtain k where row: "G ! i = gen_label_of env ?ids p @ replicate k (PADDING_TOKEN_ID env)"
    unfolding gi [symmetric] by fastforce
  have before: "G ! i ! j = PADDING_TOKEN_ID env" if "j < nat p" "j < length (G ! i)" for j
  proof (cases "j < length ?ids")
    case True
    then show ?thesis
      using that assms(6) by (simp add: row nth_append gen_label_of_length gen_label_of_prompt)
  next
    case False
    then show ?thesis
      using that by (simp add: row nth_append gen_label_of_length)
  qed
  have after: "G ! i ! j = ?ids ! j" if "nat p \<le> j" "j < len (batch ! i)" for j
    using that assms(6)
    by (simp add: row nth_append gen_label_of_length gen_label_of_rest len_def)
  from G before after show ?thesis by blast
qed

theorem gen_labels_masked_witness:
  "\<exists>G. map_sum id cb_gen_labels (Collator_call example_env example_collator example_batch)
          = Inr (Some G)
       \<and> meta (example_batch ! 0) ''prompt_length'' = Some 2
       \<and> G ! 0 ! 1 = - 100 \<and> G ! 0 ! 3 = 7"
proof -
  obtain B where B: "Collator_call example_env example_collator example_batch = Inr B"
    using example_collated_ok by blast
  have t: "task example_collator = Some Generation" by (simp add: example_collator_def)
  have c: "\<not> is_cls_task example_env Generation" by (simp add: example_env_def)
  have i: "0 < length example_batch" by (simp add: example_batch_def)
  have p: "meta (example_batch ! 0) ''prompt_length'' = Some 2" by (simp add: example_batch_def)
  have z: "(0::int) \<le> 2" by simp
  from gen_labels_masked [OF B t c i p z]
  obtain G where G: "cb_gen_labels B = Some G"
    and 1: "\<forall>j. j < nat 2 \<and> j < length (G ! 0) \<longrightarrow> G ! 0 ! j = PADDING_TOKEN_ID example_env"
    and 2: "\<forall>j. nat 2 \<le> j \<and> j < len (example_batch ! 0)
              \<longrightarrow> G ! 0 ! j = token_ids (example_batch ! 0) ! j" by blast
  have G': "G = [[- 100, - 100, 0, 7, 0, 103], [- 100, 0, 7, 0, 102, - 100]]"
    using example_gen B G by simp
  have "G ! 0 ! 1 = - 100" using 1 [rule_format, of 1] by (simp add: G' example_env_def)
  moreover have "G ! 0 ! 3 = 7"
    using 2 [rule_format, of 3] by (simp add: example_batch_def two_text_example_def len_def)
  ultimately show ?thesis using B G p by simp
qed

section \<open>Properties of the sequence tokenizer\<close>

lemma token_types_append_text:
  "token_types (append_text env opts s ids) = token_types s @ replicate (length ids) TEXT"
  by (simp add: append_text_def)

lemma token_types_add_formula:
  "token_types (add_formula env opts s f) = token_types s @ formula_types env opts f"
  by (simp add: formula_types_def add_formula_def append_text_def append_marker_def
      append_formula_tokens_def Sequence_new_def Let_def)

text \<open>What a formula contributes in either mode.\<close>

lemma formula_types_structured:
  "\<not> baseline opts \<Longrightarrow>
     formula_types env opts f
     = START_FORMULA # token_types (tokenize_formula env (opt f) opts) @ [END_FORMULA]"
  by (simp add: formula_types_def add_formula_def append_marker_def append_formula_tokens_def
      Sequence_new_def)

lemma formula_types_baseline:
  "baseline opts \<Longrightarrow> set (formula_types env opts f) \<subseteq> {TEXT}"
  by (auto simp: formula_types_def add_formula_def append_text_def Sequence_new_def Let_def)

text \<open>
  The loop, from any state: the counter grows by the number of remaining placeholders whose
  index is not a key of the map, and the type channel grows by the text tokens of each chunk
  and the tokens of each formula that is found.
\<close>

lemma tokenize_chunks_result:
  "tokenize_chunks env opts formula_map n idx cs (s, m) = (s', m') \<Longrightarrow>
     m' = m + length (filter (\<lambda>i. int i \<noteq> int n - 1 \<and> formula_map (str i) = None)
                       [idx..<idx + length cs])
     \<and> token_types s'
         = token_types s
           @ concat (map (\<lambda>i. replicate (length (text_tokenizer env (cs ! (i - idx)))) TEXT
                           @ (if int i = int n - 1 then []
                              else case formula_map (str i) of
                                     None \<Rightarrow> []
                                   | Some f \<Rightarrow> formula_types env opts f))
                      [idx..<idx + length cs])"
proof (induction cs arbitrary: idx s m)
  case Nil
  then show ?case by simp
next
  case (Cons c cs)
  let ?s1 = "append_text env opts s (text_tokenizer env c)"
  let ?emit = "\<lambda>cs' k i. replicate (length (text_tokenizer env (cs' ! (i - k)))) TEXT
                           @ (if int i = int n - 1 then []
                              else case formula_map (str i) of
                                     None \<Rightarrow> []
                                   | Some f \<Rightarrow> formula_types env opts f)"
  have shift: "map (?emit (c # cs) idx) [Suc idx..<Suc (idx + length cs)]
             = map (?emit cs (Suc idx)) [Suc idx..<Suc (idx + length cs)]"
  proof (rule map_cong [OF refl])
    fix i
    assume "i \<in> set [Suc idx..<Suc (idx + length cs)]"
    then have "i - idx = Suc (i - Suc idx)" by auto
    then show "?emit (c # cs) idx i = ?emit cs (Suc idx) i" by simp
  qed
  have unroll: "[idx..<idx + length (c # cs)] = idx # [Suc idx..<Suc (idx + length cs)]"
  proof -
    have "idx + length (c # cs) = Suc (idx + length cs)" by simp
    moreover have "[idx..<Suc (idx + length cs)] = idx # [Suc idx..<Suc (idx + length cs)]"
      by (rule upt_conv_Cons) simp
    ultimately show ?thesis by (simp only:)
  qed
  consider (last) "int idx = int n - 1"
    | (missing) "int idx \<noteq> int n - 1" "formula_map (str idx) = None"
    | (found) f where "int idx \<noteq> int n - 1" "formula_map (str idx) = Some f"
    by (cases "formula_map (str idx)") auto
  then show ?case
  proof cases
    case last
    with Cons.prems have "tokenize_chunks env opts formula_map n (Suc idx) cs (?s1, m) = (s', m')"
      by (simp add: Let_def)
    from Cons.IH [OF this] last show ?thesis
      unfolding unroll by (simp add: token_types_append_text shift del: upt_Suc)
  next
    case missing
    with Cons.prems have "tokenize_chunks env opts formula_map n (Suc idx) cs (?s1, m + 1) = (s', m')"
      by (simp add: Let_def)
    from Cons.IH [OF this] missing show ?thesis
      unfolding unroll by (simp add: token_types_append_text shift del: upt_Suc)
  next
    case found
    with Cons.prems
    have "tokenize_chunks env opts formula_map n (Suc idx) cs (add_formula env opts ?s1 f, m)
          = (s', m')"
      by (simp add: Let_def)
    from Cons.IH [OF this] found show ?thesis
      unfolding unroll
      by (simp add: token_types_append_text token_types_add_formula shift del: upt_Suc)
  qed
qed

lemma filter_not_last:
  "filter (\<lambda>i. int i \<noteq> int n - 1 \<and> P i) [0..<n] = filter P [0..<n - 1]"
proof (cases n)
  case 0
  then show ?thesis by simp
next
  case (Suc k)
  have "filter (\<lambda>i. int i \<noteq> int k \<and> P i) [0..<k] = filter P [0..<k]"
    by (rule filter_cong) auto
  then show ?thesis using Suc by simp
qed

text \<open>
  The sequences that \<open>tokenize_sequence\<close> builds hold real token ids only: ids of the text
  tokenizer, ids of the formula tokenizer and the marker id 0.
\<close>

lemma add_formula_emitted:
  assumes "\<forall>x\<in>set (token_ids s). emitted_id env x"
  shows "\<forall>x\<in>set (token_ids (add_formula env opts s f)). emitted_id env x"
  using assms
  by (auto simp: add_formula_def append_text_def append_marker_def append_formula_tokens_def
      emitted_id_def Let_def)

lemma append_text_emitted:
  assumes "\<forall>x\<in>set (token_ids s). emitted_id env x"
  shows "\<forall>x\<in>set (token_ids (append_text env opts s (text_tokenizer env txt))). emitted_id env x"
  using assms by (auto simp: append_text_def emitted_id_def)

lemma tokenize_chunks_emitted:
  "tokenize_chunks env opts formula_map n idx cs (s, m) = (s', m') \<Longrightarrow>
     \<forall>x\<in>set (token_ids s). emitted_id env x \<Longrightarrow>
     \<forall>x\<in>set (token_ids s'). emitted_id env x"
proof (induction cs arbitrary: idx s m)
  case Nil
  then show ?case by simp
next
  case (Cons c cs)
  let ?s1 = "append_text env opts s (text_tokenizer env c)"
  have s1: "\<forall>x\<in>set (token_ids ?s1). emitted_id env x"
    by (rule append_text_emitted [OF Cons.prems(2)])
  consider (last) "int idx = int n - 1"
    | (missing) "int idx \<noteq> int n - 1" "formula_map (str idx) = None"
    | (found) f where "int idx \<noteq> int n - 1" "formula_map (str idx) = Some f"
    by (cases "formula_map (str idx)") auto
  then show ?case
  proof cases
    case last
    with Cons.prems(1) have "tokenize_chunks env opts formula_map n (Suc idx) cs (?s1, m) = (s', m')"
      by (simp add: Let_def)
    from Cons.IH [OF this s1] show ?thesis .
  next
    case missing
    with Cons.prems(1)
    have "tokenize_chunks env opts formula_map n (Suc idx) cs (?s1, m + 1) = (s', m')"
      by (simp add: Let_def)
    from Cons.IH [OF this s1] show ?thesis .
  next
    case found
    with Cons.prems(1)
    have "tokenize_chunks env opts formula_map n (Suc idx) cs (add_formula env opts ?s1 f, m)
          = (s', m')"
      by (simp add: Let_def)
    from Cons.IH [OF this add_formula_emitted [OF s1]] show ?thesis .
  qed
qed

lemma tokenize_sequence_emitted:
  assumes "tokenize_sequence env nm txt formula_map opts = Inr (s, m)"
  shows "\<forall>x\<in>set (token_ids s). emitted_id env x"
proof -
  from assms obtain cs
    where "tokenize_chunks env opts formula_map (length cs) 0 cs (Sequence_new nm, 0) = (s, m)"
    by (auto simp: tokenize_sequence_def then_do_Inr)
  then show ?thesis
    by (rule tokenize_chunks_emitted) (simp add: Sequence_new_def)
qed

text \<open>
  C7: \<^verbatim>\<open>tokenize_sequence\<close> returns without raising; its counter is the number of placeholder
  occurrences whose stringified index is not a key of the formula map; the token types are
  the text tokens of each chunk, followed, only for a placeholder found in the map, by the
  tokens of its formula, so a skipped placeholder contributes no token at all. When no
  placeholder is found in the map, every token of the result is a TEXT token.
\<close>

theorem tokenize_sequence_missing_formulas:
  assumes "FORMULA_IDENTIFIER env \<noteq> []"
  shows "\<exists>sequence.
           tokenize_sequence env nm txt formula_map opts
             = Inr (sequence,
                    length (filter (\<lambda>i. formula_map (str i) = None)
                              [0..<length (text_chunks_of env txt) - 1]))
           \<and> token_types sequence
               = concat (map (\<lambda>i. replicate
                                     (length (text_tokenizer env (text_chunks_of env txt ! i)))
                                     TEXT
                                   @ (if i < length (text_chunks_of env txt) - 1
                                      then case formula_map (str i) of
                                             None \<Rightarrow> []
                                           | Some f \<Rightarrow> formula_types env opts f
                                      else []))
                          [0..<length (text_chunks_of env txt)])
           \<and> ((\<forall>i<length (text_chunks_of env txt) - 1. formula_map (str i) = None)
                \<longrightarrow> set (token_types sequence) \<subseteq> {TEXT})"
proof -
  let ?cs = "text_chunks_of env txt"
  let ?n = "length ?cs"
  obtain s' m' where r: "tokenize_chunks env opts formula_map ?n 0 ?cs (Sequence_new nm, 0) = (s', m')"
    by (cases "tokenize_chunks env opts formula_map ?n 0 ?cs (Sequence_new nm, 0)")
  have call: "tokenize_sequence env nm txt formula_map opts = Inr (s', m')"
    using assms r by (simp add: tokenize_sequence_def py_split_def then_do_def text_chunks_of_def)
  from tokenize_chunks_result [OF r]
  have m': "m' = length (filter (\<lambda>i. formula_map (str i) = None) [0..<?n - 1])"
    and tys: "token_types s'
         = concat (map (\<lambda>i. replicate (length (text_tokenizer env (?cs ! i))) TEXT
                           @ (if int i = int ?n - 1 then []
                              else case formula_map (str i) of
                                     None \<Rightarrow> []
                                   | Some f \<Rightarrow> formula_types env opts f))
                      [0..<?n])"
    by (simp_all add: filter_not_last Sequence_new_def)
  have tys': "token_types s'
         = concat (map (\<lambda>i. replicate (length (text_tokenizer env (?cs ! i))) TEXT
                           @ (if i < ?n - 1
                              then case formula_map (str i) of
                                     None \<Rightarrow> []
                                   | Some f \<Rightarrow> formula_types env opts f
                              else []))
                      [0..<?n])"
    unfolding tys
    by (rule arg_cong [where f = concat], rule map_cong [OF refl]) auto
  have "set (token_types s') \<subseteq> {TEXT}" if none: "\<forall>i<?n - 1. formula_map (str i) = None"
  proof -
    have "concat (map (\<lambda>i. replicate (length (text_tokenizer env (?cs ! i))) TEXT
                           @ (if i < ?n - 1
                              then case formula_map (str i) of
                                     None \<Rightarrow> []
                                   | Some f \<Rightarrow> formula_types env opts f
                              else []))
                      [0..<?n])
        = concat (map (\<lambda>i. replicate (length (text_tokenizer env (?cs ! i))) TEXT) [0..<?n])"
      by (rule arg_cong [where f = concat], rule map_cong [OF refl]) (simp add: none)
    then have "token_types s'
        = concat (map (\<lambda>i. replicate (length (text_tokenizer env (?cs ! i))) TEXT) [0..<?n])"
      using tys' by simp
    then show ?thesis by auto
  qed
  with call m' tys' show ?thesis by blast
qed

lemma example_chunks:
  "text_chunks_of example_env ''Area is [F] for a circle.'' = [''Area is '', '' for a circle.'']"
  by (simp add: text_chunks_of_def example_env_def split_from.simps)

theorem tokenize_sequence_missing_formulas_witness:
  "\<exists>sequence.
     tokenize_sequence example_env ''a'' ''Area is [F] for a circle.'' Map.empty example_options
       = Inr (sequence, 1)
     \<and> set (token_types sequence) \<subseteq> {TEXT}"
proof -
  have sep: "FORMULA_IDENTIFIER example_env \<noteq> []" by (simp add: example_env_def)
  from tokenize_sequence_missing_formulas [OF sep, of "''a''" "''Area is [F] for a circle.''"
      Map.empty example_options]
  show ?thesis unfolding example_chunks by auto
qed

section \<open>Properties of the problem-solving dataset\<close>

lemma len_seq_add: "len (seq_add a b) = len a + len b"
  by (simp add: len_def seq_add_def)

lemma solving_add_result:
  assumes "solving_add env opts d0 sample = Inr d"
  shows "\<exists>p s a m. solving_sequences env opts sample = Inr (p, s, a, m)
           \<and> data d = data d0 @ [(seq_add (seq_add p s) a)\<lparr>meta := [''prompt_length'' \<mapsto> int (len p)]\<rparr>]
           \<and> trimmed_sequences d
               = trimmed_sequences d0 + (if overflows env opts sample then 1 else 0)"
proof -
  from assms obtain p s a m where q: "solving_sequences env opts sample = Inr (p, s, a, m)"
    by (cases "solving_sequences env opts sample") (auto simp: solving_add_def then_do_def)
  with assms show ?thesis
    by (auto simp: solving_add_def then_do_def overflows_def Let_def len_seq_add)
qed

lemma solving_loop_result:
  "solving_loop env opts d0 samples = Inr d \<Longrightarrow>
     length (data d) = length (data d0) + length samples
     \<and> take (length (data d0)) (data d) = data d0
     \<and> (\<forall>i<length samples.
          \<exists>p s a m. solving_sequences env opts (samples ! i) = Inr (p, s, a, m)
            \<and> data d ! (length (data d0) + i)
                = (seq_add (seq_add p s) a)\<lparr>meta := [''prompt_length'' \<mapsto> int (len p)]\<rparr>)
     \<and> trimmed_sequences d
         = trimmed_sequences d0 + length (filter (overflows env opts) samples)"
proof (induction samples arbitrary: d0)
  case Nil
  then show ?case by simp
next
  case (Cons sample samples)
  from Cons.prems obtain d1 where d1: "solving_add env opts d0 sample = Inr d1"
    and rest: "solving_loop env opts d1 samples = Inr d"
    by (cases "solving_add env opts d0 sample") (auto simp: then_do_def)
  from solving_add_result [OF d1] obtain p s a m
    where q: "solving_sequences env opts sample = Inr (p, s, a, m)"
      and data1: "data d1 = data d0 @ [(seq_add (seq_add p s) a)\<lparr>meta := [''prompt_length'' \<mapsto> int (len p)]\<rparr>]"
      and trim1: "trimmed_sequences d1
               = trimmed_sequences d0 + (if overflows env opts sample then 1 else 0)"
    by blast
  note IH = Cons.IH [OF rest]
  have l1: "length (data d1) = Suc (length (data d0))" by (simp add: data1)
  from IH have ih3: "\<exists>p s a m. solving_sequences env opts (samples ! k) = Inr (p, s, a, m)
            \<and> data d ! (length (data d1) + k)
                = (seq_add (seq_add p s) a)\<lparr>meta := [''prompt_length'' \<mapsto> int (len p)]\<rparr>"
    if "k < length samples" for k
    using that by blast
  from IH have len: "length (data d) = length (data d0) + length (sample # samples)"
    by (simp add: l1)
  from IH have tk: "take (Suc (length (data d0))) (data d) = data d1" by (simp add: l1)
  then have "take (length (data d0)) (take (Suc (length (data d0))) (data d)) = data d0"
    by (simp add: data1)
  then have pre: "take (length (data d0)) (data d) = data d0" by (simp add: min_def)
  have first: "data d ! length (data d0)
       = (seq_add (seq_add p s) a)\<lparr>meta := [''prompt_length'' \<mapsto> int (len p)]\<rparr>"
  proof -
    have "data d ! length (data d0) = take (Suc (length (data d0))) (data d) ! length (data d0)"
      by simp
    also have "\<dots> = data d1 ! length (data d0)" by (simp only: tk)
    finally show ?thesis by (simp add: data1)
  qed
  have each: "\<exists>p s a m. solving_sequences env opts ((sample # samples) ! i) = Inr (p, s, a, m)
            \<and> data d ! (length (data d0) + i)
                = (seq_add (seq_add p s) a)\<lparr>meta := [''prompt_length'' \<mapsto> int (len p)]\<rparr>"
    if "i < length (sample # samples)" for i
  proof (cases i)
    case 0
    with q first show ?thesis by simp
  next
    case (Suc j)
    with that have j: "j < length samples" by simp
    have e: "length (data d0) + i = length (data d1) + j" using Suc l1 by simp
    have c: "(sample # samples) ! i = samples ! j" using Suc by simp
    show ?thesis unfolding e c by (rule ih3 [OF j])
  qed
  from IH trim1 have "trimmed_sequences d
         = trimmed_sequences d0 + length (filter (overflows env opts) (sample # samples))"
    by simp
  with len pre each show ?case by blast
qed

text \<open>
  C8: every stored sequence is the full concatenation of the sample's tokenized problem,
  steps and answer, whatever its length; the prompt length is the length of the problem
  sequence alone; and the counter of trimmed sequences is the number of samples that
  overflow \<^verbatim>\<open>max_seq_len\<close>.
\<close>

theorem problem_solving_keeps_overflow:
  assumes "ProblemSolvingDataset_init env samples opts = Inr self" and "i < length samples"
  shows "\<exists>p s a m.
           solving_sequences env opts (samples ! i) = Inr (p, s, a, m)
           \<and> token_ids (data self ! i) = token_ids p @ token_ids s @ token_ids a
           \<and> token_types (data self ! i) = token_types p @ token_types s @ token_types a
           \<and> pos_vecs (data self ! i) = pos_vecs p @ pos_vecs s @ pos_vecs a
           \<and> pos_levels (data self ! i) = pos_levels p @ pos_levels s @ pos_levels a
           \<and> gpt_tokens (data self ! i) = gpt_tokens p @ gpt_tokens s @ gpt_tokens a
           \<and> meta (data self ! i) ''prompt_length'' = Some (int (len p))
           \<and> length (data self) = length samples
           \<and> trimmed_sequences self = length (filter (overflows env opts) samples)"
proof -
  from assms(1) have "solving_loop env opts Dataset_init samples = Inr self"
    by (simp add: ProblemSolvingDataset_init_def)
  from solving_loop_result [OF this] assms(2)
  obtain p s a m where "solving_sequences env opts (samples ! i) = Inr (p, s, a, m)"
    and "data self ! i = (seq_add (seq_add p s) a)\<lparr>meta := [''prompt_length'' \<mapsto> int (len p)]\<rparr>"
    and "length (data self) = length samples"
    and "trimmed_sequences self = length (filter (overflows env opts) samples)"
    by (fastforce simp: Dataset_init_def)
  then show ?thesis by (simp add: seq_add_def)
qed

lemma tokenize_sequence_returns:
  "FORMULA_IDENTIFIER env \<noteq> [] \<Longrightarrow> \<exists>r. tokenize_sequence env nm txt formula_map opts = Inr r"
  by (simp add: tokenize_sequence_def py_split_def then_do_def)

lemma tokenize_plain_text:
  assumes "split_from (FORMULA_IDENTIFIER env) [] txt = [txt]" and "FORMULA_IDENTIFIER env \<noteq> []"
  shows "tokenize_sequence env nm txt formula_map opts
         = Inr (append_text env opts (Sequence_new nm) (text_tokenizer env txt), 0)"
  using assms by (simp add: tokenize_sequence_def py_split_def then_do_def Let_def)

lemma example_solving_sequences:
  "\<exists>p s a. solving_sequences example_env example_options example_solving = Inr (p, s, a, 0)
     \<and> len p = 30 \<and> len s = 24 \<and> len a = 6"
proof -
  have sep: "FORMULA_IDENTIFIER example_env = ''[F]''" by (simp add: example_env_def)
  have 1: "split_from ''[F]'' [] ''Question: 1+1 [SEP] Solution: ''
           = [''Question: 1+1 [SEP] Solution: '']"
    by (simp add: split_from.simps)
  have 2: "split_from ''[F]'' [] ''add [SEP] Final Answer: '' = [''add [SEP] Final Answer: '']"
    by (simp add: split_from.simps)
  have 3: "split_from ''[F]'' [] ''2<eos>'' = [''2<eos>'']"
    by (simp add: split_from.simps)
  have tok: "text_tokenizer example_env = (\<lambda>txt. replicate (length txt) 1)"
    by (simp add: example_env_def)
  have eos: "EOS_TOKEN example_env = ''<eos>''" by (simp add: example_env_def)
  show ?thesis
    by (simp add: solving_sequences_def example_solving_def then_do_def eos
        tokenize_plain_text sep 1 2 3 tok append_text_def Sequence_new_def len_def)
qed

theorem problem_solving_keeps_overflow_witness:
  "\<exists>self p s a m.
     ProblemSolvingDataset_init example_env [example_solving] example_options = Inr self
     \<and> solving_sequences example_env example_options example_solving = Inr (p, s, a, m)
     \<and> token_ids (data self ! 0) = token_ids p @ token_ids s @ token_ids a
     \<and> max_seq_len example_options < int (length (token_ids (data self ! 0)))
     \<and> meta (data self ! 0) ''prompt_length'' = Some 30
     \<and> trimmed_sequences self = 1"
proof -
  from example_solving_sequences obtain p s a
    where q: "solving_sequences example_env example_options example_solving = Inr (p, s, a, 0)"
      and l: "len p = 30" "len s = 24" "len a = 6" by blast
  have "overflows example_env example_options example_solving
        \<longleftrightarrow> max_seq_len example_options < 60"
    by (simp add: overflows_def q l)
  then have ov: "overflows example_env example_options example_solving"
    by (simp add: example_options_def)
  obtain self
    where self: "ProblemSolvingDataset_init example_env [example_solving] example_options = Inr self"
    by (simp add: ProblemSolvingDataset_init_def solving_add_def then_do_def q Let_def)
  have i: "0 < length [example_solving]" by simp
  from problem_solving_keeps_overflow [OF self i] q ov l
  have "token_ids (data self ! 0) = token_ids p @ token_ids s @ token_ids a
     \<and> meta (data self ! 0) ''prompt_length'' = Some 30
     \<and> trimmed_sequences self = 1"
    by simp
  moreover from this l
  have "max_seq_len example_options < int (length (token_ids (data self ! 0)))"
    by (simp add: len_def example_options_def)
  ultimately show ?thesis using self q by blast
qed

section \<open>Properties of the answer-scoring dataset\<close>

lemma dict_get_Inr: "dict_get d k = Inr v \<longleftrightarrow> d k = Some v"
  by (simp add: dict_get_def split: option.splits)

lemma other_answers_sound:
  "other_answers sample xs = Inr ys \<Longrightarrow>
     set ys \<subseteq> set xs
     \<and> (\<forall>e\<in>set ys. meta e ''problem_log_id'' \<noteq> meta sample ''problem_log_id'')"
proof (induction xs arbitrary: ys)
  case Nil
  then show ?case by simp
next
  case (Cons x xs)
  from Cons.prems obtain a b others
    where a: "meta x ''problem_log_id'' = Some a"
      and b: "meta sample ''problem_log_id'' = Some b"
      and others: "other_answers sample xs = Inr others"
      and ys: "ys = (if a \<noteq> b then x # others else others)"
    by (auto simp: then_do_Inr dict_get_def split: option.splits)
  from Cons.IH [OF others] a b ys show ?case by auto
qed

text \<open>
  Whatever the random draws are, as long as they draw from the population: the gathered
  examples come from the bank of the problem and none has the sample's \<^verbatim>\<open>problem_log_id\<close>.
\<close>

lemma gather_examples_sound:
  assumes "draws_from_population rnd"
  shows "gather_examples rnd graded sample grades (ini, add) = Inr (ini', add') \<Longrightarrow>
     \<forall>e\<in>set ini \<union> set add. Q e \<Longrightarrow>
     (\<And>g xs e. graded g = Some xs \<Longrightarrow> e \<in> set xs \<Longrightarrow>
        meta e ''problem_log_id'' \<noteq> meta sample ''problem_log_id'' \<Longrightarrow> Q e) \<Longrightarrow>
     \<forall>e\<in>set ini' \<union> set add'. Q e"
proof (induction grades arbitrary: ini add)
  case Nil
  then show ?case by simp
next
  case (Cons grade grades)
  from Cons.prems(1) obtain bank_examples examples
    where bank: "graded (int grade) = Some bank_examples"
      and others: "other_answers sample bank_examples = Inr examples"
    by (auto simp: then_do_Inr dict_get_def split: option.splits)
  show ?case
  proof (cases "examples = []")
    case True
    with Cons.prems(1) bank others
    have "gather_examples rnd graded sample grades (ini, add) = Inr (ini', add')"
      by (simp add: then_do_def dict_get_def)
    from Cons.IH [OF this Cons.prems(2) Cons.prems(3)] show ?thesis by simp
  next
    case False
    let ?drawn = "random_sample rnd grade examples (min (length examples) 5)"
    from False Cons.prems(1) bank others obtain first rest
      where drawn: "?drawn = first # rest"
        and rec: "gather_examples rnd graded sample grades (ini @ [first], add @ rest)
                  = Inr (ini', add')"
      by (cases ?drawn) (auto simp: then_do_def dict_get_def)
    from assms have "set ?drawn \<subseteq> set examples"
      by (simp add: draws_from_population_def)
    with drawn have "set (first # rest) \<subseteq> set examples" by simp
    with other_answers_sound [OF others] bank Cons.prems(3)
    have "\<forall>e\<in>set (first # rest). Q e" by blast
    with Cons.prems(2) have "\<forall>e\<in>set (ini @ [first]) \<union> set (add @ rest). Q e" by auto
    from Cons.IH [OF rec this Cons.prems(3)] show ?thesis by simp
  qed
qed

text \<open>The framed examples that are taken are those of a prefix of the candidates.\<close>

lemma take_examples_chosen:
  "take_examples self base_len xs = Inr seqs \<Longrightarrow>
     \<exists>chosen. set chosen \<subseteq> set xs \<and> map_err (frame_example self) chosen = Inr seqs"
proof (induction xs arbitrary: base_len seqs)
  case Nil
  then have "map_err (frame_example self) [] = Inr seqs" by simp
  then show ?case by (intro exI [of _ "[]"]) simp
next
  case (Cons x xs)
  from Cons.prems obtain framed where framed: "frame_example self x = Inr framed"
    by (auto simp: then_do_Inr)
  show ?case
  proof (cases "max_seq_len (options' self) < base_len + int (len framed)")
    case True
    with Cons.prems framed have "seqs = []" by (simp add: then_do_def)
    then have "map_err (frame_example self) [] = Inr seqs" by simp
    then show ?thesis by (intro exI [of _ "[]"]) simp
  next
    case False
    with Cons.prems framed obtain more
      where more: "take_examples self (base_len + int (len framed)) xs = Inr more"
        and seqs: "seqs = framed # more"
      by (auto simp: then_do_def split: sum.splits)
    from Cons.IH [OF more] obtain chosen
      where "set chosen \<subseteq> set xs" and "map_err (frame_example self) chosen = Inr more"
      by blast
    with framed seqs
    have "set (x # chosen) \<subseteq> set (x # xs)
          \<and> map_err (frame_example self) (x # chosen) = Inr seqs"
      by auto
    then show ?thesis by blast
  qed
qed

lemma token_ids_foldl_seq_add:
  "token_ids (foldl seq_add s xs) = token_ids s @ concat (map token_ids xs)"
  by (induction xs arbitrary: s) (simp_all add: seq_add_def)

lemma token_ids_seq_add: "token_ids (seq_add a b) = token_ids a @ token_ids b"
  by (simp add: seq_add_def)

text \<open>What a successful \<^verbatim>\<open>__getitem__\<close> went through.\<close>

lemma getitem_parts:
  assumes "AnswerScoringDataset_getitem rnd self index = Inr sequence"
  shows "\<exists>sample problem_id problem_sequence ini add example_sequences label.
      py_get (data self) index = Inr sample
      \<and> meta sample ''problem_id'' = Some problem_id
      \<and> problems self problem_id = Some problem_sequence
      \<and> (case example_bank self problem_id of
                None \<Rightarrow> Inr ([], [])
              | Some graded \<Rightarrow>
                  gather_examples rnd graded sample [0..<num_classes (options' self)] ([], []))
            = Inr (ini, add)
      \<and> take_examples self
                (int (len (qs_prefix_seq self) + len problem_sequence + len (scores_seq self)
                      + len (answer_prefix_seq self) + len sample + len (cls_seq self)))
                (random_shuffle rnd 0 ini @ random_shuffle rnd 1 add)
            = Inr example_sequences
      \<and> sequence = (seq_add
               (foldl seq_add
                  (seq_add (seq_add (qs_prefix_seq self) problem_sequence) (scores_seq self))
                  example_sequences)
               (seq_add (seq_add (answer_prefix_seq self) sample) (cls_seq self)))
            \<lparr>meta := [''label'' \<mapsto> label]\<rparr>"
  using assms unfolding AnswerScoringDataset_getitem_def
  by (auto simp: then_do_Inr dict_get_Inr split: prod.splits)

text \<open>
  C10: whatever the random draws, the sequence returned for an index is the question prefix,
  the problem, the scores listing, the framed examples, the answer prefix, the sample and
  the classification marker; every example that is framed comes from the problem's bank and
  has a \<^verbatim>\<open>problem_log_id\<close> different from the sample's.
\<close>

theorem getitem_excludes_own_answer:
  assumes "AnswerScoringDataset_getitem rnd self index = Inr sequence"
    and "draws_from_population rnd"
  shows "\<exists>sample problem_id problem_sequence chosen example_sequences.
           py_get (data self) index = Inr sample
           \<and> meta sample ''problem_id'' = Some problem_id
           \<and> problems self problem_id = Some problem_sequence
           \<and> map_err (frame_example self) chosen = Inr example_sequences
           \<and> token_ids sequence
               = token_ids (qs_prefix_seq self) @ token_ids problem_sequence
                 @ token_ids (scores_seq self) @ concat (map token_ids example_sequences)
                 @ token_ids (answer_prefix_seq self) @ token_ids sample
                 @ token_ids (cls_seq self)
           \<and> (\<forall>example\<in>set chosen.
                  meta example ''problem_log_id'' \<noteq> meta sample ''problem_log_id''
                  \<and> (\<exists>graded grade examples.
                        example_bank self problem_id = Some graded
                        \<and> graded grade = Some examples \<and> example \<in> set examples))"
proof -
  let ?Q = "\<lambda>sample problem_id example.
              meta example ''problem_log_id'' \<noteq> meta sample ''problem_log_id''
              \<and> (\<exists>graded grade examples.
                    example_bank self problem_id = Some graded
                    \<and> graded grade = Some examples \<and> example \<in> set examples)"
  from getitem_parts [OF assms(1)]
  obtain sample problem_id problem_sequence ini add example_sequences label
    where sample: "py_get (data self) index = Inr sample"
      and pid: "meta sample ''problem_id'' = Some problem_id"
      and prob: "problems self problem_id = Some problem_sequence"
      and gathered: "(case example_bank self problem_id of
                None \<Rightarrow> Inr ([], [])
              | Some graded \<Rightarrow>
                  gather_examples rnd graded sample [0..<num_classes (options' self)] ([], []))
            = Inr (ini, add)"
      and taken: "take_examples self
                (int (len (qs_prefix_seq self) + len problem_sequence + len (scores_seq self)
                      + len (answer_prefix_seq self) + len sample + len (cls_seq self)))
                (random_shuffle rnd 0 ini @ random_shuffle rnd 1 add)
            = Inr example_sequences"
      and seq: "sequence = (seq_add
               (foldl seq_add
                  (seq_add (seq_add (qs_prefix_seq self) problem_sequence) (scores_seq self))
                  example_sequences)
               (seq_add (seq_add (answer_prefix_seq self) sample) (cls_seq self)))
            \<lparr>meta := [''label'' \<mapsto> label]\<rparr>"
    by blast
  have good: "\<forall>e\<in>set ini \<union> set add. ?Q sample problem_id e"
  proof (cases "example_bank self problem_id")
    case None
    with gathered show ?thesis by simp
  next
    case (Some graded)
    with gathered
    have g: "gather_examples rnd graded sample [0..<num_classes (options' self)] ([], [])
             = Inr (ini, add)" by simp
    show ?thesis
      by (rule gather_examples_sound [OF assms(2) g]) (use Some in auto)
  qed
  from take_examples_chosen [OF taken] obtain chosen
    where sub: "set chosen \<subseteq> set (random_shuffle rnd 0 ini @ random_shuffle rnd 1 add)"
      and framed: "map_err (frame_example self) chosen = Inr example_sequences"
    by blast
  from assms(2) have "set (random_shuffle rnd 0 ini @ random_shuffle rnd 1 add)
      = set ini \<union> set add"
    by (simp add: draws_from_population_def)
  with sub good have chosen: "\<forall>e\<in>set chosen. ?Q sample problem_id e" by blast
  have ids: "token_ids sequence
               = token_ids (qs_prefix_seq self) @ token_ids problem_sequence
                 @ token_ids (scores_seq self) @ concat (map token_ids example_sequences)
                 @ token_ids (answer_prefix_seq self) @ token_ids sample
                 @ token_ids (cls_seq self)"
    unfolding seq by (simp add: token_ids_seq_add token_ids_foldl_seq_add)
  from sample pid prob framed ids chosen show ?thesis by blast
qed

lemma example_random_draws: "draws_from_population example_random"
  by (auto simp: draws_from_population_def example_random_def dest: in_set_takeD)

lemma gather_step_some:
  assumes "graded (int grade) = Some bank"
    and "other_answers sample bank = Inr (e # es)"
    and "random_sample rnd grade (e # es) (min (length (e # es)) 5) = first # rest"
  shows "gather_examples rnd graded sample (grade # grades) (ini, add)
         = gather_examples rnd graded sample grades (ini @ [first], add @ rest)"
  using assms by (simp add: then_do_def dict_get_def)

lemma gather_step_none:
  assumes "graded (int grade) = Some bank" and "other_answers sample bank = Inr []"
  shows "gather_examples rnd graded sample (grade # grades) found
         = gather_examples rnd graded sample grades found"
  using assms by (cases found) (simp add: then_do_def dict_get_def)

lemma example_getitem:
  "map_sum id token_ids (AnswerScoringDataset_getitem example_random example_scoring 0)
   = Inr [1, 30, 2, 3, 22, 10, 4, 21, 5]"
proof -
  have grades: "[0..<num_classes (options' example_scoring)] = [0, 1, 2, 3, 4]"
    by (simp add: example_scoring_def example_options_def upt_rec)
  have sample: "py_get (data example_scoring) 0 = Inr answer_a"
    by (simp add: example_scoring_def py_get_def)
  have others0: "other_answers answer_a [answer_a, answer_b] = Inr [answer_b]"
    by (simp add: answer_a_def answer_b_def one_token_def then_do_def dict_get_def)
  have others1: "other_answers answer_a [answer_c] = Inr []"
    by (simp add: answer_a_def answer_c_def one_token_def then_do_def dict_get_def)
  let ?graded = "[0 \<mapsto> [answer_a, answer_b], 1 \<mapsto> [answer_c], 2 \<mapsto> [], 3 \<mapsto> [], 4 \<mapsto> []]
                 :: int \<rightharpoonup> Sequence list"
  have b0: "?graded (int 0) = Some [answer_a, answer_b]" by simp
  have b1: "?graded (int 1) = Some [answer_c]" by simp
  have r0: "random_sample example_random 0 [answer_b] (min (length [answer_b]) 5) = [answer_b]"
    by (simp add: example_random_def)
  have g0: "gather_examples example_random ?graded answer_a [0, 1, 2, 3, 4] ([], [])
            = gather_examples example_random ?graded answer_a [1, 2, 3, 4] ([] @ [answer_b], [] @ [])"
    by (rule gather_step_some [where graded = "?graded" and grade = 0, OF b0 others0 r0])
  have g1: "gather_examples example_random ?graded answer_a [1, 2, 3, 4] found
            = gather_examples example_random ?graded answer_a [2, 3, 4] found" for found
    by (rule gather_step_none [where graded = "?graded" and grade = 1, OF b1 others1])
  have g2: "gather_examples example_random ?graded answer_a [2, 3, 4] found
            = gather_examples example_random ?graded answer_a [3, 4] found" for found
    by (rule gather_step_none [where graded = "?graded" and bank = "[]"]) simp_all
  have g3: "gather_examples example_random ?graded answer_a [3, 4] found
            = gather_examples example_random ?graded answer_a [4] found" for found
    by (rule gather_step_none [where graded = "?graded" and bank = "[]"]) simp_all
  have g4: "gather_examples example_random ?graded answer_a [4] found
            = gather_examples example_random ?graded answer_a [] found" for found
    by (rule gather_step_none [where graded = "?graded" and bank = "[]"]) simp_all
  have gathered:
    "gather_examples example_random ?graded answer_a [0, 1, 2, 3, 4] ([], [])
     = Inr ([answer_b], [])"
    by (simp only: g0 g1 g2 g3 g4) simp
  have pidf: "dict_get (meta answer_a) ''problem_id'' = Inr 7"
    and label: "dict_get (meta answer_a) ''label'' = Inr 0"
    by (simp_all add: answer_a_def one_token_def dict_get_def)
  have prob: "dict_get (problems example_scoring) 7 = Inr (one_token 30 Map.empty)"
    by (simp add: example_scoring_def dict_get_def)
  have bank: "example_bank example_scoring 7 = Some ?graded"
    by (simp add: example_scoring_def)
  have lens: "len (qs_prefix_seq example_scoring) = 1" "len (scores_seq example_scoring) = 1"
    "len (answer_prefix_seq example_scoring) = 1" "len (cls_seq example_scoring) = 1"
    "len (one_token 30 Map.empty) = 1" "len answer_a = 1"
    by (simp_all add: example_scoring_def one_token_def answer_a_def len_def)
  have shuffled: "random_shuffle example_random 0 [answer_b] @ random_shuffle example_random 1 []
                  = [answer_b]"
    by (simp add: example_random_def)
  have framed: "frame_example example_scoring answer_b
                = Inr (seq_add (seq_add (one_token 3 Map.empty) answer_b) (one_token 10 Map.empty))"
    by (simp add: frame_example_def example_scoring_def answer_b_def one_token_def
        then_do_def dict_get_def)
  have limit: "max_seq_len (options' example_scoring) = 100"
    by (simp add: example_scoring_def)
  have taken: "take_examples example_scoring 6 [answer_b]
               = Inr [seq_add (seq_add (one_token 3 Map.empty) answer_b) (one_token 10 Map.empty)]"
    by (simp add: framed then_do_def limit len_seq_add)
       (simp add: len_def one_token_def answer_b_def)
  have ids: "token_ids (qs_prefix_seq example_scoring) = [1]"
    "token_ids (scores_seq example_scoring) = [2]"
    "token_ids (answer_prefix_seq example_scoring) = [4]"
    "token_ids (cls_seq example_scoring) = [5]"
    "token_ids (one_token 30 Map.empty) = [30]"
    "token_ids (one_token 3 Map.empty) = [3]"
    "token_ids (one_token 10 Map.empty) = [10]"
    "token_ids answer_a = [21]" "token_ids answer_b = [22]"
    by (simp_all add: example_scoring_def one_token_def answer_a_def answer_b_def)
  have base: "int (len (qs_prefix_seq example_scoring) + len (one_token 30 Map.empty)
                   + len (scores_seq example_scoring) + len (answer_prefix_seq example_scoring)
                   + len answer_a + len (cls_seq example_scoring)) = 6"
    by (simp add: lens)
  have "AnswerScoringDataset_getitem example_random example_scoring 0
        = Inr ((seq_add
               (foldl seq_add
                  (seq_add (seq_add (qs_prefix_seq example_scoring) (one_token 30 Map.empty))
                     (scores_seq example_scoring))
                  [seq_add (seq_add (one_token 3 Map.empty) answer_b) (one_token 10 Map.empty)])
               (seq_add (seq_add (answer_prefix_seq example_scoring) answer_a)
                  (cls_seq example_scoring)))
            \<lparr>meta := [''label'' \<mapsto> 0]\<rparr>)"
    by (simp only: AnswerScoringDataset_getitem_def grades sample pidf prob bank gathered
        shuffled base taken label then_do_def sum.case option.case prod.case)
  then show ?thesis
    by (simp add: token_ids_seq_add ids)
qed

theorem getitem_excludes_own_answer_witness:
  "\<exists>sequence sample chosen example_sequences.
     AnswerScoringDataset_getitem example_random example_scoring 0 = Inr sequence
     \<and> py_get (data example_scoring) 0 = Inr sample
     \<and> map_err (frame_example example_scoring) chosen = Inr example_sequences
     \<and> token_ids sequence
         = [1, 30, 2] @ concat (map token_ids example_sequences) @ [4] @ token_ids sample @ [5]
     \<and> list_all (\<lambda>example. meta example ''problem_log_id'' \<noteq> meta sample ''problem_log_id'')
          chosen"
proof -
  from example_getitem obtain sequence
    where s: "AnswerScoringDataset_getitem example_random example_scoring 0 = Inr sequence"
    by (cases "AnswerScoringDataset_getitem example_random example_scoring 0") auto
  have fixed: "token_ids (qs_prefix_seq example_scoring) = [1]"
    "token_ids (scores_seq example_scoring) = [2]"
    "token_ids (answer_prefix_seq example_scoring) = [4]"
    "token_ids (cls_seq example_scoring) = [5]"
    "problems example_scoring 7 = Some (one_token 30 Map.empty)"
    "token_ids (one_token 30 Map.empty) = [30]"
    by (simp_all add: example_scoring_def one_token_def)
  have a: "py_get (data example_scoring) 0 = Inr answer_a"
    by (simp add: example_scoring_def py_get_def)
  have pid: "meta answer_a ''problem_id'' = Some 7" by (simp add: answer_a_def one_token_def)
  from getitem_excludes_own_answer [OF s example_random_draws]
  obtain sample problem_id problem_sequence chosen example_sequences
    where 1: "py_get (data example_scoring) 0 = Inr sample"
      and 2: "meta sample ''problem_id'' = Some problem_id"
      and 3: "problems example_scoring problem_id = Some problem_sequence"
      and 4: "map_err (frame_example example_scoring) chosen = Inr example_sequences"
      and 5: "token_ids sequence
               = token_ids (qs_prefix_seq example_scoring) @ token_ids problem_sequence
                 @ token_ids (scores_seq example_scoring) @ concat (map token_ids example_sequences)
                 @ token_ids (answer_prefix_seq example_scoring) @ token_ids sample
                 @ token_ids (cls_seq example_scoring)"
      and 6: "\<forall>example\<in>set chosen.
                  meta example ''problem_log_id'' \<noteq> meta sample ''problem_log_id''
                  \<and> (\<exists>graded grade examples.
                        example_bank example_scoring problem_id = Some graded
                        \<and> graded grade = Some examples \<and> example \<in> set examples)"
    by blast
  from 1 a have sa: "sample = answer_a" by simp
  with 2 pid have "problem_id = 7" by simp
  with 3 fixed have ps: "token_ids problem_sequence = [30]" by auto
  from 5 have ids: "token_ids sequence
         = [1, 30, 2] @ concat (map token_ids example_sequences) @ [4] @ token_ids sample @ [5]"
    by (simp add: fixed ps)
  from 6 have "list_all (\<lambda>example. meta example ''problem_log_id'' \<noteq> meta sample ''problem_log_id'')
          chosen"
    by (simp add: list_all_iff)
  with s 1 4 ids show ?thesis by blast
qed

end
